theory Spec2Isabelle
  imports Complex_Main "HOL-Library.Sublist"
begin

section \<open>Exceptions, responses and requests\<close>

text \<open>
  A Python exception is a value carrying its message; \<open>str_of e\<close> is \<^verbatim>\<open>str(e)\<close>.
  Every \<^verbatim>\<open>except Exception\<close> of the source catches every such value.
\<close>

datatype exn = Exception (str_of: string)

text \<open>
  What a Flask view returns: \<^verbatim>\<open>jsonify(d)\<close> is \<open>Json\<close> of the dictionary's items in
  source order, a bare string is \<open>Text\<close>, \<^verbatim>\<open>render_template(n)\<close> is \<open>Page n\<close>. \<open>Html n\<close> is
  the page that the framework itself produces for the HTTP exception named \<open>n\<close>. The second
  component is the HTTP status (200 when the view returns no status).
\<close>

datatype body = Json "(string \<times> string) list" | Text string | Page string | Html string

type_synonym response = "body \<times> nat"

datatype http_method = GET | POST

record file_storage =
  filename :: string
  content :: string

text \<open>
  A request: its method, the parsed file and form parts, and the length of its body in
  bytes (the \<^verbatim>\<open>Content-Length\<close> it declares).
\<close>

record request =
  req_method :: http_method
  files :: "string \<rightharpoonup> file_storage"
  form :: "string \<rightharpoonup> string"
  content_length :: nat

text \<open>
  The application sets \<^verbatim>\<open>MAX_CONTENT_LENGTH\<close> to 16 MiB. Reading \<^verbatim>\<open>request.files\<close> or
  \<^verbatim>\<open>request.form\<close> parses the body, and for a body longer than this limit the parser raises
  \<^verbatim>\<open>RequestEntityTooLarge\<close>. Both views read the request outside their \<^verbatim>\<open>try\<close> block, so
  the exception leaves the view and the framework answers with its page for status 413.
\<close>

definition MAX_CONTENT_LENGTH :: nat where
  "MAX_CONTENT_LENGTH = 16 * 1024 * 1024"

definition request_entity_too_large :: response where
  "request_entity_too_large = (Html ''Request Entity Too Large'', 413)"

section \<open>Outbound calls and the environment\<close>

record payload =
  anthropic_version :: string
  max_tokens :: nat
  messages :: "(string \<times> (string \<times> string) list) list"
  temperature :: real
  top_p :: nat

text \<open>
  One constructor per outbound client method, with the arguments that the source passes.
  The IAM trust policy is a constant of the source and is left out; the permission policy
  is represented by its resource list.
\<close>

datatype call =
    CreateBucket string
  | CreateRole string
  | CreatePolicy string "string list"
  | AttachRolePolicy string string
  | CreateKnowledgeBase string string string string
  | CreateDataSource "string option" string string string
  | StartIngestionJob "string option"
  | ListDataSources string
  | DeleteDataSource string string
  | DeleteKnowledgeBase string
  | ListObjectsV2 string
  | DeleteObjects string "string list"
  | DeleteBucket string
  | UploadFile string string string
  | Retrieve string "string option" nat string
  | InvokeModel payload string string string

text \<open>An event of the trace: an outbound call and the exception it raised, if any.\<close>

type_synonym event = "call \<times> exn option"

text \<open>The state of automatic field numbering inside \<^verbatim>\<open>str.format\<close>.\<close>

datatype numbering = Unset | Auto nat | Manual

text \<open>
  The managed services are a parameter: each answers a call, given the events so far, with
  an exception or a result. \<open>secure_filename\<close> is the
  library function of that name. \<open>format_field\<close> stands for what \<^verbatim>\<open>str.format\<close> does from a
  replacement field onwards when that field is none of \<^verbatim>\<open>{}\<close>, \<^verbatim>\<open>{0}\<close>, \<^verbatim>\<open>{1}\<close> with an argument
  to take: it is given the numbering state, the rest of the format string from the opening
  brace, and the arguments.
\<close>

record env =
  s3_create_bucket :: "event list \<Rightarrow> call \<Rightarrow> exn + unit"
  iam_create_role :: "event list \<Rightarrow> call \<Rightarrow> exn + string"
  iam_create_policy :: "event list \<Rightarrow> call \<Rightarrow> exn + string"
  iam_attach_role_policy :: "event list \<Rightarrow> call \<Rightarrow> exn + unit"
  create_knowledge_base :: "event list \<Rightarrow> call \<Rightarrow> exn + string"
  create_data_source :: "event list \<Rightarrow> call \<Rightarrow> exn + string"
  start_ingestion :: "event list \<Rightarrow> call \<Rightarrow> exn + string"
  list_data_sources :: "event list \<Rightarrow> call \<Rightarrow> exn + string list"
  delete_data_source :: "event list \<Rightarrow> call \<Rightarrow> exn + unit"
  delete_knowledge_base :: "event list \<Rightarrow> call \<Rightarrow> exn + unit"
  list_objects_v2 :: "event list \<Rightarrow> call \<Rightarrow> exn + string list option"
  delete_objects :: "event list \<Rightarrow> call \<Rightarrow> exn + unit"
  delete_bucket :: "event list \<Rightarrow> call \<Rightarrow> exn + unit"
  s3_upload_file :: "event list \<Rightarrow> call \<Rightarrow> exn + unit"
  retrieve :: "event list \<Rightarrow> call \<Rightarrow> exn + string list"
  invoke_model :: "event list \<Rightarrow> call \<Rightarrow> exn + string"
  secure_filename :: "string \<Rightarrow> string"
  format_field :: "numbering \<Rightarrow> string \<Rightarrow> string list \<Rightarrow> exn + string"

datatype level = INFO | ERROR

text \<open>
  The process state outside the knowledge-base object: the trace of outbound calls with
  their outcomes, the log, and the local file system as a map from paths to contents.
\<close>

record world =
  trace :: "event list"
  logs :: "(level \<times> string) list"
  fs :: "string \<rightharpoonup> string"

definition raised :: "exn + 'a \<Rightarrow> exn option" where
  "raised r = (case r of Inl e \<Rightarrow> Some e | Inr _ \<Rightarrow> None)"

definition outbound :: "(event list \<Rightarrow> call \<Rightarrow> exn + 'a) \<Rightarrow> call \<Rightarrow> world \<Rightarrow> (exn + 'a) \<times> world" where
  "outbound svc c w = (let r = svc (trace w) c in (r, w\<lparr>trace := trace w @ [(c, raised r)]\<rparr>))"

definition logger :: "level \<Rightarrow> string \<Rightarrow> world \<Rightarrow> world" where
  "logger l m w = w\<lparr>logs := logs w @ [(l, m)]\<rparr>"

record source =
  src_type :: string
  bucket_name :: string

record kb =
  kb_name :: string
  kb_description :: string
  data_sources :: "source list"
  chunking_strategy :: string
  kb_suffix :: string
  kb_id :: "string option"

record config =
  region :: string
  data_bucket_name :: string

section \<open>Upload handler\<close>

definition UPLOAD_FOLDER :: string where
  "UPLOAD_FOLDER = ''uploads''"

definition ALLOWED_EXTENSIONS :: "string set" where
  "ALLOWED_EXTENSIONS = {''pdf''}"

text \<open>
  \<^verbatim>\<open>str.lower\<close> on the ASCII letters; no other character lowers to an ASCII letter
  of \<^verbatim>\<open>pdf\<close>, so membership in the allowed extensions is decided by this part.
\<close>

definition lower_char :: "char \<Rightarrow> char" where
  "lower_char c = (let n = (of_char c :: nat) in if 65 \<le> n \<and> n \<le> 90 then char_of (n + 32) else c)"

definition lower :: "string \<Rightarrow> string" where
  "lower s = map lower_char s"

text \<open>\<^verbatim>\<open>s.rsplit('.', 1)[1]\<close> for a string that has a dot: what follows the last dot.\<close>

definition after_last_dot :: "string \<Rightarrow> string" where
  "after_last_dot s = rev (takeWhile (\<lambda>c. c \<noteq> CHR ''.'') (rev s))"

definition allowed_file :: "string \<Rightarrow> bool" where
  "allowed_file fname \<longleftrightarrow>
     CHR ''.'' \<in> set fname \<and> lower (after_last_dot fname) \<in> ALLOWED_EXTENSIONS"

text \<open>\<^verbatim>\<open>os.path.join(a, b)\<close> for a non-empty \<open>a\<close> without trailing separator.\<close>

definition path_join :: "string \<Rightarrow> string \<Rightarrow> string" where
  "path_join a b = (case b of c # _ \<Rightarrow> if c = CHR ''/'' then b else a @ ''/'' @ b | [] \<Rightarrow> a @ ''/'')"

text \<open>The method \<^verbatim>\<open>start_ingestion_job\<close>: log and return the job id, or log and re-raise.\<close>

definition start_ingestion_job :: "env \<Rightarrow> kb \<Rightarrow> world \<Rightarrow> (exn + string) \<times> world" where
  "start_ingestion_job ev k w =
     (case outbound (start_ingestion ev) (StartIngestionJob (kb_id k)) w of
        (Inr job, w1) \<Rightarrow> (Inr job, logger INFO (''Started ingestion job: '' @ job) w1)
      | (Inl e, w1) \<Rightarrow> (Inl e, logger ERROR (''Error starting ingestion job: '' @ str_of e) w1))"

text \<open>The body of the \<^verbatim>\<open>try\<close> block of \<^verbatim>\<open>upload_file\<close>.\<close>

definition upload_try :: "env \<Rightarrow> config \<Rightarrow> kb \<Rightarrow> string \<Rightarrow> string \<Rightarrow> world \<Rightarrow> (exn + response) \<times> world" where
  "upload_try ev cfg k file_path fname w =
     (case outbound (s3_upload_file ev) (UploadFile file_path (data_bucket_name cfg) fname) w of
        (Inl e, w1) \<Rightarrow> (Inl e, w1)
      | (Inr _, w1) \<Rightarrow>
          (case start_ingestion_job ev k w1 of
             (Inl e, w2) \<Rightarrow> (Inl e, w2)
           | (Inr job, w2) \<Rightarrow>
               (Inr (Json [(''message'', ''File uploaded successfully''),
                           (''filename'', fname),
                           (''ingestion_job_id'', job)], 200), w2)))"

text \<open>The \<^verbatim>\<open>finally\<close> clause: remove the local file if it exists.\<close>

definition remove_if_exists :: "string \<Rightarrow> world \<Rightarrow> world" where
  "remove_if_exists p w = (if p \<in> dom (fs w) then w\<lparr>fs := (fs w)(p := None)\<rparr> else w)"

definition upload_file :: "env \<Rightarrow> config \<Rightarrow> kb \<Rightarrow> request \<Rightarrow> world \<Rightarrow> (exn + response) \<times> world" where
  "upload_file ev cfg k req w =
     (if req_method req = POST then
        if MAX_CONTENT_LENGTH < content_length req then (Inr request_entity_too_large, w)
        else
        (case files req ''file'' of
           None \<Rightarrow> (Inr (Json [(''error'', ''No file part'')], 400), w)
         | Some file \<Rightarrow>
             if filename file = [] then (Inr (Json [(''error'', ''No selected file'')], 400), w)
             else if filename file \<noteq> [] \<and> allowed_file (filename file) then
               (let fname = secure_filename ev (filename file);
                    file_path = path_join UPLOAD_FOLDER fname;
                    w1 = w\<lparr>fs := (fs w)(file_path \<mapsto> content file)\<rparr>
                in case upload_try ev cfg k file_path fname w1 of
                     (Inr r, w2) \<Rightarrow> (Inr r, remove_if_exists file_path w2)
                   | (Inl e, w2) \<Rightarrow>
                       (Inr (Json [(''error'', str_of e)], 500),
                        remove_if_exists file_path (logger ERROR (''Error uploading file: '' @ str_of e) w2)))
             else (Inr (Json [(''error'', ''Invalid file type'')], 400), w))
      else (Inr (Page ''upload.html'', 200), w))"

section \<open>Knowledge-base object: provisioning\<close>








section \<open>Knowledge-base object: deletion\<close>

fun delete_data_sources :: "env \<Rightarrow> string \<Rightarrow> string list \<Rightarrow> world \<Rightarrow> (exn + unit) \<times> world" where
  "delete_data_sources ev kid [] w = (Inr (), w)"
| "delete_data_sources ev kid (ds # dss) w =
     (case outbound (delete_data_source ev) (DeleteDataSource kid ds) w of
        (Inl e, w1) \<Rightarrow> (Inl e, w1)
      | (Inr _, w1) \<Rightarrow> delete_data_sources ev kid dss (logger INFO (''Deleted data source: '' @ ds) w1))"

definition empty_and_delete_bucket :: "env \<Rightarrow> string \<Rightarrow> world \<Rightarrow> (exn + unit) \<times> world" where
  "empty_and_delete_bucket ev b w =
     (case outbound (list_objects_v2 ev) (ListObjectsV2 b) w of
        (Inl e, w1) \<Rightarrow> (Inl e, w1)
      | (Inr objects, w1) \<Rightarrow>
          (case (case objects of
                   None \<Rightarrow> (Inr (), w1)
                 | Some keys \<Rightarrow> outbound (delete_objects ev) (DeleteObjects b keys) w1) of
             (Inl e, w2) \<Rightarrow> (Inl e, w2)
           | (Inr _, w2) \<Rightarrow>
               (case outbound (delete_bucket ev) (DeleteBucket b) w2 of
                  (Inl e, w3) \<Rightarrow> (Inl e, w3)
                | (Inr _, w3) \<Rightarrow> (Inr (), logger INFO (''Deleted S3 bucket: '' @ b) w3))))"

fun delete_buckets :: "env \<Rightarrow> source list \<Rightarrow> world \<Rightarrow> (exn + unit) \<times> world" where
  "delete_buckets ev [] w = (Inr (), w)"
| "delete_buckets ev (s # ss) w =
     (if src_type s = ''S3'' then
        (case empty_and_delete_bucket ev (bucket_name s) w of
           (Inl e, w1) \<Rightarrow> (Inl e, w1)
         | (Inr _, w1) \<Rightarrow> delete_buckets ev ss w1)
      else delete_buckets ev ss w)"

text \<open>The \<^verbatim>\<open>try\<close> block of \<^verbatim>\<open>delete_kb\<close>; \<^verbatim>\<open>if self.kb_id\<close> holds for a non-empty identifier.\<close>

definition delete_kb_try :: "env \<Rightarrow> kb \<Rightarrow> bool \<Rightarrow> world \<Rightarrow> (exn + unit) \<times> world" where
  "delete_kb_try ev k delete_s3_bucket w =
     (case kb_id k of
        None \<Rightarrow> (Inr (), w)
      | Some kid \<Rightarrow>
          if kid = [] then (Inr (), w)
          else
            (case outbound (list_data_sources ev) (ListDataSources kid) w of
               (Inl e, w1) \<Rightarrow> (Inl e, w1)
             | (Inr dss, w1) \<Rightarrow>
                 (case delete_data_sources ev kid dss w1 of
                    (Inl e, w2) \<Rightarrow> (Inl e, w2)
                  | (Inr _, w2) \<Rightarrow>
                      (case outbound (delete_knowledge_base ev) (DeleteKnowledgeBase kid) w2 of
                         (Inl e, w3) \<Rightarrow> (Inl e, w3)
                       | (Inr _, w3) \<Rightarrow>
                           (let w4 = logger INFO (''Deleted Knowledge Base: '' @ kid) w3
                            in if delete_s3_bucket then delete_buckets ev (data_sources k) w4
                               else (Inr (), w4))))))"

definition delete_kb :: "env \<Rightarrow> kb \<Rightarrow> bool \<Rightarrow> world \<Rightarrow> (exn + unit) \<times> world" where
  "delete_kb ev k delete_s3_bucket w =
     (case delete_kb_try ev k delete_s3_bucket w of
        (Inr u, w1) \<Rightarrow> (Inr u, w1)
      | (Inl e, w1) \<Rightarrow> (Inl e, logger ERROR (''Error deleting resources: '' @ str_of e) w1))"

definition cleanup :: "env \<Rightarrow> kb \<Rightarrow> world \<Rightarrow> (exn + response) \<times> world" where
  "cleanup ev k w =
     (case delete_kb ev k True w of
        (Inr _, w1) \<Rightarrow> (Inr (Json [(''message'', ''Resources cleaned up successfully'')], 200), w1)
      | (Inl e, w1) \<Rightarrow>
          (Inr (Json [(''error'', str_of e)], 500), logger ERROR (''Error cleaning up: '' @ str_of e) w1))"

section \<open>Query handler\<close>

subsection \<open>String conversions of the runtime\<close>

text \<open>
  \<^verbatim>\<open>repr\<close> of a string: the quote is the double quote when the string has a single quote and
  no double quote, else the single quote; the quote and the backslash are escaped, tab,
  newline and return are written with their letters, and every other character that is not
  printable in hexadecimal. A character is a code point below 256; the ones that are not
  printable are those below 32, 127, 128 to 160 (the second block of controls and the
  no-break space) and 173 (the soft hyphen).
\<close>

definition hex_digit :: "nat \<Rightarrow> char" where
  "hex_digit n = ''0123456789abcdef'' ! (n mod 16)"

definition repr_char :: "char \<Rightarrow> char \<Rightarrow> string" where
  "repr_char q c =
     (let n = (of_char c :: nat) in
      if c = q \<or> c = CHR 0x5C then [CHR 0x5C, c]
      else if n = 9 then [CHR 0x5C, CHR ''t'']
      else if n = 10 then [CHR 0x5C, CHR ''n'']
      else if n = 13 then [CHR 0x5C, CHR ''r'']
      else if n < 32 \<or> n = 127 \<or> (128 \<le> n \<and> n \<le> 160) \<or> n = 173
        then [CHR 0x5C, CHR ''x'', hex_digit (n div 16), hex_digit n]
      else [c])"

definition py_repr :: "string \<Rightarrow> string" where
  "py_repr s =
     (let q = (if CHR 0x27 \<in> set s \<and> CHR 0x22 \<notin> set s then CHR 0x22 else CHR 0x27)
      in [q] @ concat (map (repr_char q) s) @ [q])"

fun join :: "string \<Rightarrow> string list \<Rightarrow> string" where
  "join sep [] = []"
| "join sep [x] = x"
| "join sep (x # y # ys) = x @ sep @ join sep (y # ys)"

text \<open>\<^verbatim>\<open>str\<close> of a list of strings.\<close>

definition str_list :: "string list \<Rightarrow> string" where
  "str_list xs = ''['' @ join '', '' (map py_repr xs) @ '']''"

subsection \<open>Format strings\<close>

definition lookup_arg :: "string list \<Rightarrow> nat \<Rightarrow> string option" where
  "lookup_arg args i = (if i < length args then Some (args ! i) else None)"

definition emit :: "string \<Rightarrow> exn + string \<Rightarrow> exn + string" where
  "emit x r = (case r of Inl e \<Rightarrow> Inl e | Inr s \<Rightarrow> Inr (x @ s))"

text \<open>
  \<^verbatim>\<open>fmt.format(*args)\<close> with the arguments already converted to strings. Literal text is
  copied, a doubled brace gives one brace, a single closing brace or a final opening brace
  raises ValueError. The fields \<^verbatim>\<open>{}\<close>, \<^verbatim>\<open>{0}\<close> and \<^verbatim>\<open>{1}\<close> take their argument under the
  rule that automatic and manual numbering do not mix; every other field is left to \<open>orc\<close>.
\<close>

fun py_format ::
  "(numbering \<Rightarrow> string \<Rightarrow> string list \<Rightarrow> exn + string) \<Rightarrow> string list \<Rightarrow> numbering \<Rightarrow> string \<Rightarrow> exn + string"
where
  "py_format orc args st [] = Inr []"
| "py_format orc args st (c # s) =
     (if c = CHR ''}'' then
        (case s of
           [] \<Rightarrow> Inl (Exception ''Single '}' encountered in format string'')
         | d # s1 \<Rightarrow>
             if d = CHR ''}'' then emit ''}'' (py_format orc args st s1)
             else Inl (Exception ''Single '}' encountered in format string''))
      else if c = CHR ''{'' then
        (case s of
           [] \<Rightarrow> Inl (Exception ''Single '{' encountered in format string'')
         | d # s1 \<Rightarrow>
             if d = CHR ''{'' then emit ''{'' (py_format orc args st s1)
             else if d = CHR ''}'' then
               (case st of
                  Manual \<Rightarrow>
                    Inl (Exception ''cannot switch from manual field specification to automatic field numbering'')
                | Unset \<Rightarrow>
                    (case lookup_arg args 0 of
                       Some a \<Rightarrow> emit a (py_format orc args (Auto 1) s1)
                     | None \<Rightarrow> orc st (c # s) args)
                | Auto n \<Rightarrow>
                    (case lookup_arg args n of
                       Some a \<Rightarrow> emit a (py_format orc args (Auto (Suc n)) s1)
                     | None \<Rightarrow> orc st (c # s) args))
             else
               (case s1 of
                  [] \<Rightarrow> orc st (c # s) args
                | e # s2 \<Rightarrow>
                    if (d = CHR ''0'' \<or> d = CHR ''1'') \<and> e = CHR ''}'' then
                      (case st of
                         Auto n \<Rightarrow>
                           Inl (Exception ''cannot switch from automatic field numbering to manual field specification'')
                       | _ \<Rightarrow>
                           (case lookup_arg args (if d = CHR ''0'' then 0 else 1) of
                              Some a \<Rightarrow> emit a (py_format orc args Manual s2)
                            | None \<Rightarrow> orc st (c # s) args))
                    else orc st (c # s) args))
      else emit [c] (py_format orc args st s))"

subsection \<open>The prompt\<close>

text \<open>The literal parts of the f-string of \<^verbatim>\<open>query_kb\<close>, around its two placeholders.\<close>

definition prompt_head :: string where
  "prompt_head =
     ''\<newline>'' @
     ''            Human: You are a financial advisor AI system, and provides answers t'' @
     ''o questions by using fact based and statistical information when possible. \<newline>'' @
     ''            Use the following pieces of information to provide a concise answer '' @
     ''to the question enclosed in <question> tags. \<newline>'' @
     ''            If you don't know the answer, just say that you don't know, don't tr'' @
     ''y to make up an answer.\<newline>'' @
     ''            <context>\<newline>'' @
     ''            ''"

definition prompt_mid :: string where
  "prompt_mid =
     ''\<newline>'' @
     ''            </context>\<newline>'' @
     ''\<newline>'' @
     ''            <question>\<newline>'' @
     ''            ''"

definition prompt_tail :: string where
  "prompt_tail =
     ''\<newline>'' @
     ''            </question>\<newline>'' @
     ''\<newline>'' @
     ''            The response should be specific and use statistics or numbers when possible.\<newline>'' @
     ''\<newline>'' @
     ''            Assistant:''"

definition make_prompt :: "string list \<Rightarrow> string \<Rightarrow> string" where
  "make_prompt contexts query = prompt_head @ str_list contexts @ prompt_mid @ query @ prompt_tail"

subsection \<open>The handler\<close>

definition sonnet_payload :: "string \<Rightarrow> payload" where
  "sonnet_payload text =
     \<lparr>anthropic_version = ''bedrock-2023-05-31'',
      max_tokens = 512,
      messages = [(''user'', [(''text'', text)])],
      temperature = 0.5,
      top_p = 1\<rparr>"

definition modelId :: string where
  "modelId = ''anthropic.claude-3-sonnet-20240229-v1:0''"

text \<open>
  Both outbound calls of the view are methods of the one client object
  \<^verbatim>\<open>bedrock_agent_runtime_client\<close>, created for the service \<^verbatim>\<open>bedrock-agent-runtime\<close>. A client
  object has the operations of its service as methods; looking up any other name raises
  \<^verbatim>\<open>AttributeError\<close> with the message below, and nothing is sent. The operations of this
  service that matter here: it has \<^verbatim>\<open>retrieve\<close>; \<^verbatim>\<open>invoke_model\<close> is an operation of the service
  \<^verbatim>\<open>bedrock-runtime\<close>, for which the module creates no client.
\<close>

record client =
  class_name :: string
  operations :: "string list"

definition bedrock_agent_runtime_client :: client where
  "bedrock_agent_runtime_client =
     \<lparr>class_name = ''AgentsforBedrockRuntime'',
      operations = [''invoke_agent'', ''retrieve'', ''retrieve_and_generate'']\<rparr>"

definition getattr :: "client \<Rightarrow> string \<Rightarrow> exn + unit" where
  "getattr cl name =
     (if name \<in> set (operations cl) then Inr ()
      else Inl (Exception ([CHR 0x27] @ class_name cl @ [CHR 0x27] @ '' object has no attribute ''
                  @ [CHR 0x27] @ name @ [CHR 0x27])))"

text \<open>A method call on a client: the lookup of the method, then the outbound call.\<close>

definition client_call ::
  "client \<Rightarrow> string \<Rightarrow> (event list \<Rightarrow> call \<Rightarrow> exn + 'a) \<Rightarrow> call \<Rightarrow> world \<Rightarrow> (exn + 'a) \<times> world" where
  "client_call cl name svc c w =
     (case getattr cl name of
        Inl e \<Rightarrow> (Inl e, w)
      | Inr _ \<Rightarrow> outbound svc c w)"

text \<open>The \<^verbatim>\<open>try\<close> block of \<^verbatim>\<open>query_kb\<close>.\<close>

definition query_try :: "env \<Rightarrow> kb \<Rightarrow> string \<Rightarrow> world \<Rightarrow> (exn + response) \<times> world" where
  "query_try ev k query w =
     (case client_call bedrock_agent_runtime_client ''retrieve'' (retrieve ev)
             (Retrieve query (kb_id k) 5 ''HYBRID'') w of
        (Inl e, w1) \<Rightarrow> (Inl e, w1)
      | (Inr contexts, w1) \<Rightarrow>
          (case py_format (format_field ev) [str_list contexts, query] Unset
                  (make_prompt contexts query) of
             Inl e \<Rightarrow> (Inl e, w1)
           | Inr text \<Rightarrow>
               (case client_call bedrock_agent_runtime_client ''invoke_model'' (invoke_model ev)
                       (InvokeModel (sonnet_payload text) modelId ''application/json'' ''application/json'') w1 of
                  (Inl e, w2) \<Rightarrow> (Inl e, w2)
                | (Inr response_text, w2) \<Rightarrow> (Inr (Text response_text, 200), w2))))"

definition query_kb :: "env \<Rightarrow> kb \<Rightarrow> request \<Rightarrow> world \<Rightarrow> (exn + response) \<times> world" where
  "query_kb ev k req w =
     (if req_method req = POST then
        if MAX_CONTENT_LENGTH < content_length req then (Inr request_entity_too_large, w)
        else
        (case form req ''query'' of
           None \<Rightarrow> (Inr (Json [(''error'', ''No query provided'')], 400), w)
         | Some query \<Rightarrow>
             if query = [] then (Inr (Json [(''error'', ''No query provided'')], 400), w)
             else
               (case query_try ev k query w of
                  (Inr r, w1) \<Rightarrow> (Inr r, w1)
                | (Inl e, w1) \<Rightarrow>
                    (Inr (Json [(''error'', str_of e)], 500),
                     logger ERROR (''Error querying knowledge base: '' @ str_of e) w1)))
      else (Inr (Page ''query.html'', 200), w))"

section \<open>Specification-side notions and sample inputs\<close>

text \<open>A file name has the allowed extension when, lowercased, it ends with \<^verbatim>\<open>.pdf\<close>.\<close>

definition has_allowed_extension :: "string \<Rightarrow> bool" where
  "has_allowed_extension fname \<longleftrightarrow> suffix ''.pdf'' (lower fname)"

text \<open>An environment in which every service succeeds, and sample inputs.\<close>

definition ok_env :: env where
  "ok_env =
     \<lparr>s3_create_bucket = (\<lambda>_ _. Inr ()),
      iam_create_role = (\<lambda>_ _. Inr ''arn:aws:iam::1:role/BedrockKBRole-0000001''),
      iam_create_policy = (\<lambda>_ _. Inr ''arn:aws:iam::1:policy/BedrockKBPolicy-0000001''),
      iam_attach_role_policy = (\<lambda>_ _. Inr ()),
      create_knowledge_base = (\<lambda>_ _. Inr ''KB1''),
      create_data_source = (\<lambda>_ _. Inr ''DS1''),
      start_ingestion = (\<lambda>_ _. Inr ''JOB1''),
      list_data_sources = (\<lambda>_ _. Inr [''DS1'']),
      delete_data_source = (\<lambda>_ _. Inr ()),
      delete_knowledge_base = (\<lambda>_ _. Inr ()),
      list_objects_v2 = (\<lambda>_ _. Inr (Some [''report.pdf''])),
      delete_objects = (\<lambda>_ _. Inr ()),
      delete_bucket = (\<lambda>_ _. Inr ()),
      s3_upload_file = (\<lambda>_ _. Inr ()),
      retrieve = (\<lambda>_ _. Inr [''Q1 revenue was 5 million'']),
      invoke_model = (\<lambda>_ _. Inr ''Q1 revenue was 5 million.''),
      secure_filename = (\<lambda>s. s),
      format_field = (\<lambda>_ _ _. Inl (Exception ''unsupported field''))\<rparr>"

definition sample_cfg :: config where
  "sample_cfg = \<lparr>region = ''us-east-1'', data_bucket_name = ''bedrock-kb-data-0000001-1''\<rparr>"

definition sample_kb :: kb where
  "sample_kb =
     \<lparr>kb_name = ''bedrock-flask-kb-0000001'',
      kb_description = ''Knowledge base for PDF documents'',
      data_sources = [\<lparr>src_type = ''S3'', bucket_name = ''bedrock-kb-data-0000001-1''\<rparr>],
      chunking_strategy = ''FIXED_SIZE'',
      kb_suffix = ''0000001'',
      kb_id = Some ''KB1''\<rparr>"

definition empty_world :: world where
  "empty_world = \<lparr>trace = [], logs = [], fs = Map.empty\<rparr>"

definition txt_file :: file_storage where
  "txt_file = \<lparr>filename = ''notes.txt'', content = ''hello''\<rparr>"

definition pdf_file :: file_storage where
  "pdf_file = \<lparr>filename = ''report.pdf'', content = ''%PDF''\<rparr>"

definition upload_request :: "file_storage \<Rightarrow> request" where
  "upload_request f =
     \<lparr>req_method = POST, files = [''file'' \<mapsto> f], form = Map.empty, content_length = 1024\<rparr>"

definition query_request :: "string \<Rightarrow> request" where
  "query_request q =
     \<lparr>req_method = POST, files = Map.empty, form = [''query'' \<mapsto> q], content_length = 1024\<rparr>"

text \<open>The same requests with a body of 17 MiB, above the limit.\<close>

definition oversized :: "request \<Rightarrow> request" where
  "oversized req = req\<lparr>content_length := 17 * 1024 * 1024\<rparr>"

text \<open>A string without brace characters; a sample query and the passages retrieved for it.\<close>

definition no_brace :: "string \<Rightarrow> bool" where
  "no_brace s \<longleftrightarrow> CHR ''{'' \<notin> set s \<and> CHR ''}'' \<notin> set s"

definition revenue_query :: string where
  "revenue_query = ''What was Q1 revenue?''"

definition revenue_passages :: "string list" where
  "revenue_passages = [''Q1 revenue was 5 million'']"

text \<open>The message of the \<^verbatim>\<open>AttributeError\<close> for the method that the client lacks.\<close>

definition no_invoke_model_message :: string where
  "no_invoke_model_message =
     [CHR 0x27] @ ''AgentsforBedrockRuntime'' @ [CHR 0x27] @ '' object has no attribute ''
       @ [CHR 0x27] @ ''invoke_model'' @ [CHR 0x27]"

text \<open>
  Kinds of outbound calls: the deletion of a data-source binding, the deletion of the
  knowledge base, the operations on a storage bucket of the deletion (listing its objects,
  deleting them, deleting the bucket), and the creation of a bucket.
\<close>

definition is_binding_deletion :: "call \<Rightarrow> bool" where
  "is_binding_deletion c = (case c of DeleteDataSource _ _ \<Rightarrow> True | _ \<Rightarrow> False)"

definition is_kb_deletion :: "call \<Rightarrow> bool" where
  "is_kb_deletion c = (case c of DeleteKnowledgeBase _ \<Rightarrow> True | _ \<Rightarrow> False)"

definition is_storage_op :: "call \<Rightarrow> bool" where
  "is_storage_op c =
     (case c of ListObjectsV2 _ \<Rightarrow> True | DeleteObjects _ _ \<Rightarrow> True | DeleteBucket _ \<Rightarrow> True
      | _ \<Rightarrow> False)"

definition is_bucket_creation :: "call \<Rightarrow> bool" where
  "is_bucket_creation c = (case c of CreateBucket _ \<Rightarrow> True | _ \<Rightarrow> False)"

text \<open>The calls made between two states, in order: those of the events the trace has gained.\<close>

definition calls_between :: "world \<Rightarrow> world \<Rightarrow> call list \<Rightarrow> bool" where
  "calls_between w w' cs \<longleftrightarrow> (\<exists>new. trace w' = trace w @ new \<and> cs = map fst new)"

text \<open>
  Events are quiet when each of them raised nothing or is a bucket creation. A run from
  \<open>w\<close> to \<open>w'\<close> with outcome \<open>out\<close>: the trace has gained events that are quiet when
  nothing is raised to the caller; when \<open>e\<close> is raised, they are quiet events followed by
  one call, not a bucket creation, that raised \<open>e\<close>.
\<close>

definition quiet :: "event list \<Rightarrow> bool" where
  "quiet new \<longleftrightarrow> list_all (\<lambda>(c, out). out = None \<or> is_bucket_creation c) new"

definition run :: "world \<Rightarrow> world \<Rightarrow> exn option \<Rightarrow> bool" where
  "run w w' out \<longleftrightarrow>
     (\<exists>new. trace w' = trace w @ new \<and>
        (case out of
           None \<Rightarrow> quiet new
         | Some e \<Rightarrow> (\<exists>pre c. new = pre @ [(c, Some e)] \<and> quiet pre \<and> \<not> is_bucket_creation c)))"





definition gone_env :: env where
  "gone_env = ok_env\<lparr>list_data_sources :=
     (\<lambda>history _. if (DeleteKnowledgeBase ''KB1'', None) \<in> set history
        then Inl (Exception ''ResourceNotFoundException: knowledge base KB1 not found'')
        else Inr [''DS1''])\<rparr>"

section \<open>The extension check\<close>

lemma of_char_lower_char:
  "(of_char (lower_char c) :: nat) =
     (if 65 \<le> (of_char c :: nat) \<and> (of_char c :: nat) \<le> 90 then of_char c + 32 else of_char c)"
  by (simp add: lower_char_def Let_def)

lemma lower_char_eq_iff: "lower_char c = d \<longleftrightarrow> (of_char (lower_char c) :: nat) = of_char d"
  by (rule of_char_eq_iff [symmetric])

lemma dot_code: "(of_char c :: nat) = 46 \<longleftrightarrow> c = CHR ''.''"
proof -
  have "(of_char (CHR ''.'') :: nat) = 46" by simp
  then show ?thesis by (metis of_char_eq_iff)
qed

lemma lower_char_dot: "lower_char c = CHR ''.'' \<longleftrightarrow> c = CHR ''.''"
proof -
  have "lower_char c = CHR ''.'' \<longleftrightarrow> (of_char (lower_char c) :: nat) = 46"
    by (subst lower_char_eq_iff) simp
  also have "\<dots> \<longleftrightarrow> (of_char c :: nat) = 46"
    by (simp add: of_char_lower_char)
  finally show ?thesis by (simp add: dot_code)
qed

lemma after_last_dot_append:
  "CHR ''.'' \<notin> set e \<Longrightarrow> after_last_dot (p @ CHR ''.'' # e) = e"
  by (simp add: after_last_dot_def takeWhile_append)

lemma split_last_dot:
  assumes "CHR ''.'' \<in> set s"
  shows "\<exists>p. s = p @ CHR ''.'' # after_last_dot s"
proof -
  from assms obtain ys zs where s: "s = ys @ CHR ''.'' # zs" and z: "CHR ''.'' \<notin> set zs"
    using split_list_last [of "CHR ''.''" s] by blast
  have al: "after_last_dot (ys @ CHR ''.'' # zs) = zs" by (rule after_last_dot_append [OF z])
  show ?thesis unfolding s al by blast
qed

lemma allowed_imp_extension:
  assumes "allowed_file fname"
  shows "has_allowed_extension fname"
proof -
  from assms have d: "CHR ''.'' \<in> set fname" and l: "lower (after_last_dot fname) = ''pdf''"
    by (simp_all add: allowed_file_def ALLOWED_EXTENSIONS_def)
  from split_last_dot [OF d] obtain p where p: "fname = p @ CHR ''.'' # after_last_dot fname" by blast
  have "lower fname = lower (p @ CHR ''.'' # after_last_dot fname)" by (rule arg_cong [OF p])
  also have "\<dots> = lower p @ lower_char (CHR ''.'') # lower (after_last_dot fname)"
    by (simp add: lower_def)
  also have "\<dots> = lower p @ ''.pdf''" using l by (simp add: lower_char_dot)
  finally show ?thesis unfolding has_allowed_extension_def suffix_def by blast
qed

lemma map_eq_append_split:
  "map f xs = zs @ ys \<Longrightarrow> \<exists>a b. xs = a @ b \<and> map f b = ys"
  by (auto simp: map_eq_append_conv)

lemma map_eq_four:
  "map f b = [x0, x1, x2, x3] \<Longrightarrow>
   \<exists>c0 c1 c2 c3. b = [c0, c1, c2, c3] \<and> f c0 = x0 \<and> f c1 = x1 \<and> f c2 = x2 \<and> f c3 = x3"
  by (auto simp: map_eq_Cons_conv)

lemma lower_char_other_not_dot: "lower_char c = d \<Longrightarrow> d \<noteq> CHR ''.'' \<Longrightarrow> c \<noteq> CHR ''.''"
  using lower_char_dot [of c] by blast

lemma extension_imp_allowed:
  assumes "has_allowed_extension fname"
  shows "allowed_file fname"
proof -
  from assms obtain zs where "map lower_char fname = zs @ ''.pdf''"
    unfolding has_allowed_extension_def suffix_def lower_def by blast
  from map_eq_append_split [OF this]
  obtain a b where ab: "fname = a @ b" and mb: "map lower_char b = ''.pdf''"
    by (elim exE conjE) (rule that)
  from map_eq_four [OF mb]
  obtain c0 c1 c2 c3 where b: "b = [c0, c1, c2, c3]"
    and c0: "lower_char c0 = CHR ''.''" and c1: "lower_char c1 = CHR ''p''"
    and c2: "lower_char c2 = CHR ''d''" and c3: "lower_char c3 = CHR ''f''"
    by (elim exE conjE) (rule that)
  have d0: "c0 = CHR ''.''" using c0 by (simp only: lower_char_dot)
  have n1: "c1 \<noteq> CHR ''.''" by (rule lower_char_other_not_dot [OF c1]) simp
  have n2: "c2 \<noteq> CHR ''.''" by (rule lower_char_other_not_dot [OF c2]) simp
  have n3: "c3 \<noteq> CHR ''.''" by (rule lower_char_other_not_dot [OF c3]) simp
  have nd: "CHR ''.'' \<notin> set [c1, c2, c3]" using n1 n2 n3 by auto
  have f: "fname = a @ CHR ''.'' # [c1, c2, c3]" unfolding ab b d0 by simp
  have al: "after_last_dot (a @ CHR ''.'' # [c1, c2, c3]) = [c1, c2, c3]"
    by (rule after_last_dot_append [OF nd])
  have "CHR ''.'' \<in> set (a @ CHR ''.'' # [c1, c2, c3])" by simp
  moreover have "lower [c1, c2, c3] = ''pdf''" by (simp add: lower_def c1 c2 c3)
  ultimately show ?thesis
    unfolding allowed_file_def ALLOWED_EXTENSIONS_def f al by simp
qed

lemma allowed_file_iff: "allowed_file fname \<longleftrightarrow> has_allowed_extension fname"
  using allowed_imp_extension extension_imp_allowed by blast

section \<open>Upload handler: properties\<close>

lemma txt_not_allowed: "\<not> has_allowed_extension (filename txt_file)"
  by (simp add: has_allowed_extension_def txt_file_def lower_def lower_char_def suffix_to_prefix)

lemma pdf_allowed: "allowed_file (filename pdf_file)"
  by (simp add: allowed_file_iff has_allowed_extension_def pdf_file_def lower_def lower_char_def suffix_to_prefix)

lemma upload_request_post: "req_method (upload_request f) = POST"
  by (simp add: upload_request_def)

lemma upload_request_file: "files (upload_request f) ''file'' = Some f"
  by (simp add: upload_request_def)

lemma upload_request_in_limit: "content_length (upload_request f) \<le> MAX_CONTENT_LENGTH"
  by (simp add: upload_request_def MAX_CONTENT_LENGTH_def)

lemma oversized_over_limit: "MAX_CONTENT_LENGTH < content_length (oversized req)"
  by (simp add: oversized_def MAX_CONTENT_LENGTH_def)

lemma oversized_same_parts:
  "req_method (oversized req) = req_method req"
  "files (oversized req) = files req"
  "form (oversized req) = form req"
  by (simp_all add: oversized_def)

lemma upload_file_oversized:
  "req_method req = POST \<Longrightarrow> MAX_CONTENT_LENGTH < content_length req \<Longrightarrow>
   upload_file ev cfg k req w = (Inr request_entity_too_large, w)"
  by (simp add: upload_file_def)

text \<open>
  Claim C5 as stated ranges over every POST. A request of 17 MiB that carries
  \<^verbatim>\<open>notes.txt\<close> is answered with the page for status 413, not with status 400 and a JSON
  body: the body is over the limit and is never parsed.
\<close>

theorem oversized_upload_answered_413:
  "req_method (oversized (upload_request txt_file)) = POST \<and>
   files (oversized (upload_request txt_file)) ''file'' = Some txt_file \<and>
   \<not> has_allowed_extension (filename txt_file) \<and>
   fst (upload_file ok_env sample_cfg sample_kb (oversized (upload_request txt_file)) empty_world)
     = Inr (Html ''Request Entity Too Large'', 413) \<and>
   (\<nexists>m. fst (upload_file ok_env sample_cfg sample_kb (oversized (upload_request txt_file)) empty_world)
     = Inr (Json [(''error'', m)], 400))"
proof -
  have p: "req_method (oversized (upload_request txt_file)) = POST"
    by (simp add: oversized_same_parts upload_request_post)
  have f: "files (oversized (upload_request txt_file)) ''file'' = Some txt_file"
    by (simp add: oversized_same_parts upload_request_file)
  have u: "upload_file ok_env sample_cfg sample_kb (oversized (upload_request txt_file)) empty_world
             = (Inr request_entity_too_large, empty_world)"
    by (rule upload_file_oversized [OF p oversized_over_limit])
  show ?thesis
    unfolding u using p f txt_not_allowed by (simp add: request_entity_too_large_def)
qed

text \<open>
  Claim C5, amended. For every POST to the upload route whose body is within the size limit
  and that carries a file whose name, lowercased, does not end with \<^verbatim>\<open>.pdf\<close>, the handler
  answers with status 400 and a JSON body holding the single key \<^verbatim>\<open>error\<close>.
\<close>

theorem upload_rejects_disallowed_extension:
  assumes "req_method req = POST" and "content_length req \<le> MAX_CONTENT_LENGTH"
    and "files req ''file'' = Some f"
    and "\<not> has_allowed_extension (filename f)"
  shows "\<exists>m. fst (upload_file ev cfg k req w) = Inr (Json [(''error'', m)], 400)"
proof -
  from assms(4) have "\<not> allowed_file (filename f)" by (simp add: allowed_file_iff)
  with assms(1,2,3) show ?thesis by (simp add: upload_file_def)
qed

theorem upload_rejects_disallowed_extension_witness:
  "req_method (upload_request txt_file) = POST \<and>
   content_length (upload_request txt_file) \<le> MAX_CONTENT_LENGTH \<and>
   files (upload_request txt_file) ''file'' = Some txt_file \<and>
   \<not> has_allowed_extension (filename txt_file) \<and>
   (\<exists>m. fst (upload_file ok_env sample_cfg sample_kb (upload_request txt_file) empty_world)
        = Inr (Json [(''error'', m)], 400))"
proof -
  note h1 = upload_request_post [of txt_file]
  note h2 = upload_request_in_limit [of txt_file]
  note h3 = upload_request_file [of txt_file]
  note h4 = txt_not_allowed
  from upload_rejects_disallowed_extension [OF h1 h2 h3 h4] h1 h2 h3 h4
  show ?thesis by (intro conjI)
qed

lemma fs_logger: "fs (logger l m w) = fs w"
  by (simp add: logger_def)

lemma trace_logger: "trace (logger l m w) = trace w"
  by (simp add: logger_def)

lemma fs_outbound: "outbound svc c w = (r, w') \<Longrightarrow> fs w' = fs w"
  by (auto simp: outbound_def Let_def)

lemma fs_start_ingestion_job: "start_ingestion_job ev k w = (r, w') \<Longrightarrow> fs w' = fs w"
  by (auto simp: start_ingestion_job_def fs_logger split: prod.splits sum.splits dest: fs_outbound)

lemma remove_if_exists_gone: "p \<notin> dom (fs (remove_if_exists p w))"
  by (auto simp: remove_if_exists_def)

text \<open>
  Claim C3. For every upload whose file passes the extension check and is saved (the body
  is within the size limit), the local temporary file (the upload folder joined with the
  secured name) does not exist when the handler returns, whatever the storage upload and the
  ingestion trigger answer. A body over the limit is answered before anything is saved, with
  the state as it was.
\<close>

theorem upload_removes_local_file:
  assumes "req_method req = POST" and "files req ''file'' = Some f"
    and "allowed_file (filename f)"
  shows "(content_length req \<le> MAX_CONTENT_LENGTH \<longrightarrow>
            path_join UPLOAD_FOLDER (secure_filename ev (filename f))
              \<notin> dom (fs (snd (upload_file ev cfg k req w)))) \<and>
         (MAX_CONTENT_LENGTH < content_length req \<longrightarrow>
            upload_file ev cfg k req w = (Inr request_entity_too_large, w))"
proof (intro conjI impI)
  assume c: "content_length req \<le> MAX_CONTENT_LENGTH"
  from assms(3) have ne: "filename f \<noteq> []" by (auto simp: allowed_file_def)
  show "path_join UPLOAD_FOLDER (secure_filename ev (filename f))
          \<notin> dom (fs (snd (upload_file ev cfg k req w)))"
    using assms(1,2,3) ne c
    by (simp add: upload_file_def Let_def remove_if_exists_gone split: prod.splits sum.splits)
next
  assume "MAX_CONTENT_LENGTH < content_length req"
  with assms(1) show "upload_file ev cfg k req w = (Inr request_entity_too_large, w)"
    by (rule upload_file_oversized)
qed

theorem upload_removes_local_file_witness:
  "req_method (upload_request pdf_file) = POST \<and>
   files (upload_request pdf_file) ''file'' = Some pdf_file \<and>
   allowed_file (filename pdf_file) \<and>
   content_length (upload_request pdf_file) \<le> MAX_CONTENT_LENGTH \<and>
   path_join UPLOAD_FOLDER (secure_filename ok_env (filename pdf_file))
     \<notin> dom (fs (snd (upload_file ok_env sample_cfg sample_kb (upload_request pdf_file) empty_world)))"
proof -
  note h1 = upload_request_post [of pdf_file]
  note h2 = upload_request_file [of pdf_file]
  note h3 = pdf_allowed
  note h4 = upload_request_in_limit [of pdf_file]
  from upload_removes_local_file [OF h1 h2 h3, THEN conjunct1, rule_format, OF h4] h1 h2 h3 h4
  show ?thesis by (intro conjI)
qed

text \<open>
  Claim C9. A POST to the upload route that is rejected as a client error (no file part, an
  empty file name, or a disallowed extension) leaves the whole state as it was: no local
  file is written, no outbound call (storage upload, ingestion start) is made, nothing is
  logged. The answer is the 400 error body when the body is within the size limit, and the
  page for status 413 otherwise.
\<close>

theorem upload_rejected_no_side_effects:
  assumes "req_method req = POST"
    and "files req ''file'' = None \<or>
         (\<exists>f. files req ''file'' = Some f \<and> (filename f = [] \<or> \<not> allowed_file (filename f)))"
  shows "snd (upload_file ev cfg k req w) = w \<and>
         (if content_length req \<le> MAX_CONTENT_LENGTH
          then \<exists>m. fst (upload_file ev cfg k req w) = Inr (Json [(''error'', m)], 400)
          else fst (upload_file ev cfg k req w) = Inr request_entity_too_large)"
  using assms by (auto simp: upload_file_def)

theorem upload_rejected_no_side_effects_witness:
  "req_method (upload_request txt_file) = POST \<and>
   (files (upload_request txt_file) ''file'' = None \<or>
    (\<exists>f. files (upload_request txt_file) ''file'' = Some f \<and>
         (filename f = [] \<or> \<not> allowed_file (filename f)))) \<and>
   content_length (upload_request txt_file) \<le> MAX_CONTENT_LENGTH \<and>
   snd (upload_file ok_env sample_cfg sample_kb (upload_request txt_file) empty_world) = empty_world \<and>
   (\<exists>m. fst (upload_file ok_env sample_cfg sample_kb (upload_request txt_file) empty_world)
        = Inr (Json [(''error'', m)], 400))"
proof -
  note h1 = upload_request_post [of txt_file]
  have "files (upload_request txt_file) ''file'' = Some txt_file \<and>
        (filename txt_file = [] \<or> \<not> allowed_file (filename txt_file))"
    using txt_not_allowed by (simp add: upload_request_file allowed_file_iff)
  then have h2: "files (upload_request txt_file) ''file'' = None \<or>
    (\<exists>f. files (upload_request txt_file) ''file'' = Some f \<and>
         (filename f = [] \<or> \<not> allowed_file (filename f)))" by (intro disjI2 exI)
  note h3 = upload_request_in_limit [of txt_file]
  from upload_rejected_no_side_effects [OF h1 h2, of ok_env sample_cfg sample_kb empty_world] h3
  have c: "snd (upload_file ok_env sample_cfg sample_kb (upload_request txt_file) empty_world) = empty_world \<and>
   (\<exists>m. fst (upload_file ok_env sample_cfg sample_kb (upload_request txt_file) empty_world)
        = Inr (Json [(''error'', m)], 400))"
    by (simp only: if_True)
  from h1 h2 h3 c show ?thesis by (intro conjI) (elim conjE, assumption)+
qed

section \<open>Query handler: properties\<close>

lemma query_request_post: "req_method (query_request q) = POST"
  by (simp add: query_request_def)

lemma query_request_form: "form (query_request q) ''query'' = Some q"
  by (simp add: query_request_def)

lemma query_request_in_limit: "content_length (query_request q) \<le> MAX_CONTENT_LENGTH"
  by (simp add: query_request_def MAX_CONTENT_LENGTH_def)

lemma query_kb_oversized:
  "req_method req = POST \<Longrightarrow> MAX_CONTENT_LENGTH < content_length req \<Longrightarrow>
   query_kb ev k req w = (Inr request_entity_too_large, w)"
  by (simp add: query_kb_def)

text \<open>
  Claim C6 as stated ranges over every POST. A request of 17 MiB with an empty \<^verbatim>\<open>query\<close>
  field is answered with the page for status 413, not with status 400 and a JSON body.
\<close>

theorem oversized_empty_query_answered_413:
  "req_method (oversized (query_request [])) = POST \<and>
   form (oversized (query_request [])) ''query'' = Some [] \<and>
   fst (query_kb ok_env sample_kb (oversized (query_request [])) empty_world)
     = Inr (Html ''Request Entity Too Large'', 413) \<and>
   fst (query_kb ok_env sample_kb (oversized (query_request [])) empty_world)
     \<noteq> Inr (Json [(''error'', ''No query provided'')], 400)"
proof -
  have p: "req_method (oversized (query_request [])) = POST"
    by (simp add: oversized_same_parts query_request_post)
  have f: "form (oversized (query_request [])) ''query'' = Some []"
    by (simp add: oversized_same_parts query_request_form)
  have u: "query_kb ok_env sample_kb (oversized (query_request [])) empty_world
             = (Inr request_entity_too_large, empty_world)"
    by (rule query_kb_oversized [OF p oversized_over_limit])
  show ?thesis
    unfolding u using p f by (simp add: request_entity_too_large_def)
qed

text \<open>
  Claim C6, amended. A POST to the query route whose body is within the size limit and whose
  \<^verbatim>\<open>query\<close> field is absent or empty is answered with status 400 and a JSON error body, and
  the state is unchanged: no retrieval or generation call is made.
\<close>

theorem empty_query_rejected:
  assumes "req_method req = POST" and "content_length req \<le> MAX_CONTENT_LENGTH"
    and "form req ''query'' = None \<or> form req ''query'' = Some []"
  shows "query_kb ev k req w = (Inr (Json [(''error'', ''No query provided'')], 400), w)"
  using assms by (auto simp: query_kb_def)

theorem empty_query_rejected_witness:
  "req_method (query_request []) = POST \<and>
   content_length (query_request []) \<le> MAX_CONTENT_LENGTH \<and>
   (form (query_request []) ''query'' = None \<or> form (query_request []) ''query'' = Some []) \<and>
   query_kb ok_env sample_kb (query_request []) empty_world
     = (Inr (Json [(''error'', ''No query provided'')], 400), empty_world)"
proof -
  note h1 = query_request_post [of "[]"]
  note h2 = query_request_in_limit [of "[]"]
  have h3: "form (query_request []) ''query'' = None \<or> form (query_request []) ''query'' = Some []"
    by (simp add: query_request_form)
  from empty_query_rejected [OF h1 h2 h3] h1 h2 h3 show ?thesis by (intro conjI)
qed

subsection \<open>Format strings without braces\<close>

lemma no_brace_Nil: "no_brace []"
  by (simp add: no_brace_def)

lemma no_brace_Cons: "no_brace (c # s) \<longleftrightarrow> c \<noteq> CHR ''{'' \<and> c \<noteq> CHR ''}'' \<and> no_brace s"
  by (auto simp: no_brace_def)

lemma no_brace_append: "no_brace (a @ b) \<longleftrightarrow> no_brace a \<and> no_brace b"
  by (auto simp: no_brace_def)

lemma emit_Inr: "emit x (Inr s) = Inr (x @ s)"
  by (simp add: emit_def)

lemma emit_emit: "emit a (emit b r) = emit (a @ b) r"
  by (cases r) (simp_all add: emit_def)

lemma py_format_plain_char:
  "c \<noteq> CHR ''{'' \<Longrightarrow> c \<noteq> CHR ''}'' \<Longrightarrow>
   py_format orc args st (c # s) = emit [c] (py_format orc args st s)"
  by simp

lemma py_format_append:
  "no_brace a \<Longrightarrow> py_format orc args st (a @ b) = emit a (py_format orc args st b)"
proof (induction a)
  case Nil
  show ?case by (cases "py_format orc args st b") (simp_all add: emit_def)
next
  case (Cons c a)
  from Cons.prems have c: "c \<noteq> CHR ''{''" "c \<noteq> CHR ''}''" and a: "no_brace a"
    by (simp_all add: no_brace_Cons)
  have "py_format orc args st ((c # a) @ b) = emit [c] (py_format orc args st (a @ b))"
    using py_format_plain_char [OF c] by simp
  also have "\<dots> = emit [c] (emit a (py_format orc args st b))"
    by (simp only: Cons.IH [OF a])
  finally show ?case by (simp add: emit_emit)
qed

lemma py_format_identity: "no_brace s \<Longrightarrow> py_format orc args st s = Inr s"
  using py_format_append [of s orc args st "[]"] by (simp add: emit_Inr)

lemma hex_digit_cases:
  "hex_digit n \<in> set ''0123456789abcdef''"
  unfolding hex_digit_def by (rule nth_mem) simp

lemma hex_digit_no_brace: "hex_digit n \<noteq> CHR ''{'' \<and> hex_digit n \<noteq> CHR ''}''"
  using hex_digit_cases [of n] by auto

lemma repr_char_no_brace:
  "q \<noteq> CHR ''{'' \<Longrightarrow> q \<noteq> CHR ''}'' \<Longrightarrow> c \<noteq> CHR ''{'' \<Longrightarrow> c \<noteq> CHR ''}'' \<Longrightarrow>
   no_brace (repr_char q c)"
  using hex_digit_no_brace
  by (simp add: repr_char_def Let_def no_brace_Cons no_brace_Nil)

lemma no_brace_concat_map:
  "(\<And>c. c \<in> set s \<Longrightarrow> no_brace (f c)) \<Longrightarrow> no_brace (concat (map f s))"
  by (induction s) (simp_all add: no_brace_Nil no_brace_append)

lemma py_repr_no_brace:
  assumes "no_brace s"
  shows "no_brace (py_repr s)"
proof -
  define q where "q = (if CHR 0x27 \<in> set s \<and> CHR 0x22 \<notin> set s then CHR 0x22 else CHR 0x27)"
  have q: "q \<noteq> CHR ''{''" "q \<noteq> CHR ''}''" by (simp_all add: q_def)
  have "\<And>c. c \<in> set s \<Longrightarrow> no_brace (repr_char q c)"
  proof -
    fix c assume "c \<in> set s"
    with assms have "c \<noteq> CHR ''{''" "c \<noteq> CHR ''}''" by (auto simp: no_brace_def)
    then show "no_brace (repr_char q c)" by (rule repr_char_no_brace [OF q])
  qed
  then have "no_brace (concat (map (repr_char q) s))" by (rule no_brace_concat_map)
  then have "no_brace ([q] @ concat (map (repr_char q) s) @ [q])"
    using q by (simp add: no_brace_append no_brace_Cons no_brace_Nil)
  then show ?thesis by (simp add: py_repr_def Let_def q_def)
qed

lemma join_no_brace:
  "no_brace sep \<Longrightarrow> (\<And>x. x \<in> set xs \<Longrightarrow> no_brace x) \<Longrightarrow> no_brace (join sep xs)"
  by (induction sep xs rule: join.induct) (simp_all add: no_brace_Nil no_brace_append)

lemma str_list_no_brace:
  assumes "\<And>t. t \<in> set ctx \<Longrightarrow> no_brace t"
  shows "no_brace (str_list ctx)"
proof -
  have "no_brace (join '', '' (map py_repr ctx))"
  proof (rule join_no_brace)
    show "no_brace '', ''" by (simp add: no_brace_def)
  next
    fix x assume "x \<in> set (map py_repr ctx)"
    then obtain t where "t \<in> set ctx" "x = py_repr t" by auto
    with assms show "no_brace x" by (simp add: py_repr_no_brace)
  qed
  then show ?thesis by (simp add: str_list_def no_brace_append no_brace_Cons no_brace_Nil)
qed

lemma prompt_head_no_brace: "no_brace prompt_head"
  by (simp add: prompt_head_def no_brace_def)

lemma prompt_mid_no_brace: "no_brace prompt_mid"
  by (simp add: prompt_mid_def no_brace_def)

lemma prompt_tail_no_brace: "no_brace prompt_tail"
  by (simp add: prompt_tail_def no_brace_def)

lemma make_prompt_no_brace:
  "no_brace (str_list ctx) \<Longrightarrow> no_brace q \<Longrightarrow> no_brace (make_prompt ctx q)"
  by (simp add: make_prompt_def no_brace_append prompt_head_no_brace prompt_mid_no_brace
      prompt_tail_no_brace)

subsection \<open>What the handler does with a non-empty query\<close>

lemma getattr_retrieve: "getattr bedrock_agent_runtime_client ''retrieve'' = Inr ()"
  by (simp add: getattr_def bedrock_agent_runtime_client_def)

lemma getattr_invoke_model:
  "getattr bedrock_agent_runtime_client ''invoke_model'' = Inl (Exception no_invoke_model_message)"
  by (simp add: getattr_def bedrock_agent_runtime_client_def no_invoke_model_message_def)

lemma client_call_retrieve:
  "client_call bedrock_agent_runtime_client ''retrieve'' svc c w = outbound svc c w"
  by (simp add: client_call_def getattr_retrieve)

lemma client_call_invoke_model:
  "client_call bedrock_agent_runtime_client ''invoke_model'' svc c w
     = (Inl (Exception no_invoke_model_message), w)"
  by (simp add: client_call_def getattr_invoke_model)

text \<open>
  The exception with which the \<^verbatim>\<open>try\<close> block ends: that of the retrieval call, else that
  of the \<^verbatim>\<open>format\<close> call, else the \<^verbatim>\<open>AttributeError\<close> of the method lookup. The block never
  returns a value, and the retrieval call is the only one it adds to the trace.
\<close>

lemma query_try_raises:
  "query_try ev k q w =
     (Inl (case retrieve ev (trace w) (Retrieve q (kb_id k) 5 ''HYBRID'') of
             Inl e \<Rightarrow> e
           | Inr ctx \<Rightarrow>
               (case py_format (format_field ev) [str_list ctx, q] Unset (make_prompt ctx q) of
                  Inl e \<Rightarrow> e
                | Inr text \<Rightarrow> Exception no_invoke_model_message)),
      w\<lparr>trace := trace w @
           [(Retrieve q (kb_id k) 5 ''HYBRID'',
             raised (retrieve ev (trace w) (Retrieve q (kb_id k) 5 ''HYBRID'')))]\<rparr>)"
  by (simp add: query_try_def client_call_retrieve client_call_invoke_model outbound_def Let_def
      split: sum.splits)

lemma query_kb_nonempty:
  assumes "req_method req = POST" and "content_length req \<le> MAX_CONTENT_LENGTH"
    and "form req ''query'' = Some q" and "q \<noteq> []"
  shows "query_kb ev k req w =
           (case query_try ev k q w of
              (Inr r, w1) \<Rightarrow> (Inr r, w1)
            | (Inl e, w1) \<Rightarrow>
                (Inr (Json [(''error'', str_of e)], 500),
                 logger ERROR (''Error querying knowledge base: '' @ str_of e) w1))"
  using assms by (simp add: query_kb_def)

lemma revenue_query_nonempty: "revenue_query \<noteq> []"
  by (simp add: revenue_query_def)

lemma revenue_retrieve:
  "retrieve ok_env (trace empty_world) (Retrieve revenue_query (kb_id sample_kb) 5 ''HYBRID'')
     = Inr revenue_passages"
  by (simp add: ok_env_def revenue_passages_def)

lemma revenue_passages_no_brace: "\<forall>t\<in>set revenue_passages. no_brace t"
  by (simp add: revenue_passages_def no_brace_def)

lemma revenue_query_no_brace: "no_brace revenue_query"
  by (simp add: revenue_query_def no_brace_def)

lemma format_identity_without_braces:
  assumes "no_brace q" and "\<forall>t\<in>set ctx. no_brace t"
  shows "py_format orc [str_list ctx, q] Unset (make_prompt ctx q) = Inr (make_prompt ctx q)"
proof -
  from assms(2) have "no_brace (str_list ctx)" by (simp add: str_list_no_brace)
  with assms(1) have "no_brace (make_prompt ctx q)" by (simp add: make_prompt_no_brace)
  then show ?thesis by (rule py_format_identity)
qed

lemma revenue_format:
  "py_format orc [str_list revenue_passages, revenue_query] Unset
     (make_prompt revenue_passages revenue_query) = Inr (make_prompt revenue_passages revenue_query)"
  by (rule format_identity_without_braces [OF revenue_query_no_brace revenue_passages_no_brace])

text \<open>
  Claim C2. A POST with a non-empty query never gets the answer and the passages: whatever
  the services answer, the response is status 500 with a JSON body holding the single key
  \<^verbatim>\<open>error\<close>. When retrieval and the \<^verbatim>\<open>format\<close> call succeed, the message is that of the
  \<^verbatim>\<open>AttributeError\<close>: the generation method is looked up on a client that does not have it.
\<close>

theorem query_never_returns_answer:
  assumes "req_method req = POST" and "content_length req \<le> MAX_CONTENT_LENGTH"
    and "form req ''query'' = Some q" and "q \<noteq> []"
  shows "fst (query_kb ev k req w) =
           Inr (Json [(''error'',
                  str_of (case retrieve ev (trace w) (Retrieve q (kb_id k) 5 ''HYBRID'') of
                            Inl e \<Rightarrow> e
                          | Inr ctx \<Rightarrow>
                              (case py_format (format_field ev) [str_list ctx, q] Unset
                                      (make_prompt ctx q) of
                                 Inl e \<Rightarrow> e
                               | Inr text \<Rightarrow> Exception no_invoke_model_message)))], 500)"
  by (simp add: query_kb_nonempty [OF assms] query_try_raises)

theorem query_never_returns_answer_witness:
  "req_method (query_request revenue_query) = POST \<and>
   content_length (query_request revenue_query) \<le> MAX_CONTENT_LENGTH \<and>
   form (query_request revenue_query) ''query'' = Some revenue_query \<and>
   revenue_query \<noteq> [] \<and>
   retrieve ok_env (trace empty_world) (Retrieve revenue_query (kb_id sample_kb) 5 ''HYBRID'')
     = Inr revenue_passages \<and>
   fst (query_kb ok_env sample_kb (query_request revenue_query) empty_world)
     = Inr (Json [(''error'', no_invoke_model_message)], 500)"
proof -
  note h1 = query_request_post [of revenue_query]
  note h2 = query_request_in_limit [of revenue_query]
  note h3 = query_request_form [of revenue_query]
  note h4 = revenue_query_nonempty
  have "fst (query_kb ok_env sample_kb (query_request revenue_query) empty_world)
     = Inr (Json [(''error'', no_invoke_model_message)], 500)"
    using query_never_returns_answer [OF h1 h2 h3 h4, of ok_env sample_kb empty_world]
    by (simp add: revenue_retrieve revenue_format)
  with h1 h2 h3 h4 revenue_retrieve show ?thesis by (intro conjI)
qed

text \<open>
  Claim C8. For every non-empty query the handler issues the retrieval call with result
  count 5 and search type HYBRID, the query text being its first argument only. It is the
  only call: the generation call is never issued, although the payload that the handler
  prepares for it has \<^verbatim>\<open>max_tokens\<close> 512, temperature 0.5 and \<^verbatim>\<open>top_p\<close> 1 for every message
  text.
\<close>

theorem query_issues_retrieval_only:
  assumes "req_method req = POST" and "content_length req \<le> MAX_CONTENT_LENGTH"
    and "form req ''query'' = Some q" and "q \<noteq> []"
  shows "map fst (trace (snd (query_kb ev k req w))) =
           map fst (trace w) @ [Retrieve q (kb_id k) 5 ''HYBRID''] \<and>
         max_tokens (sonnet_payload text) = 512 \<and>
         temperature (sonnet_payload text) = 0.5 \<and>
         top_p (sonnet_payload text) = 1"
  by (simp add: query_kb_nonempty [OF assms] query_try_raises trace_logger sonnet_payload_def)

theorem query_issues_retrieval_only_witness:
  "req_method (query_request revenue_query) = POST \<and>
   content_length (query_request revenue_query) \<le> MAX_CONTENT_LENGTH \<and>
   form (query_request revenue_query) ''query'' = Some revenue_query \<and>
   revenue_query \<noteq> [] \<and>
   map fst (trace (snd (query_kb ok_env sample_kb (query_request revenue_query) empty_world))) =
     map fst (trace empty_world) @ [Retrieve revenue_query (kb_id sample_kb) 5 ''HYBRID''] \<and>
   max_tokens (sonnet_payload (make_prompt revenue_passages revenue_query)) = 512 \<and>
   temperature (sonnet_payload (make_prompt revenue_passages revenue_query)) = 0.5 \<and>
   top_p (sonnet_payload (make_prompt revenue_passages revenue_query)) = 1"
proof -
  note h1 = query_request_post [of revenue_query]
  note h2 = query_request_in_limit [of revenue_query]
  note h3 = query_request_form [of revenue_query]
  note h4 = revenue_query_nonempty
  from query_issues_retrieval_only
         [OF h1 h2 h3 h4, of ok_env sample_kb empty_world "make_prompt revenue_passages revenue_query"]
       h1 h2 h3 h4
  show ?thesis by (intro conjI) (elim conjE, assumption)+
qed

lemma py_format_field0:
  "py_format orc args Unset (CHR ''{'' # CHR ''0'' # CHR ''}'' # s) =
     (case lookup_arg args 0 of
        Some a \<Rightarrow> emit a (py_format orc args Manual s)
      | None \<Rightarrow> orc Unset (CHR ''{'' # CHR ''0'' # CHR ''}'' # s) args)"
  by simp

lemma make_prompt_inject: "make_prompt ctx a = make_prompt ctx b \<Longrightarrow> a = b"
  by (simp add: make_prompt_def)

lemma format_braces_value:
  "py_format orc [str_list revenue_passages, ''{0}''] Unset (make_prompt revenue_passages ''{0}'')
     = Inr (make_prompt revenue_passages (str_list revenue_passages))"
proof -
  have sl: "no_brace (str_list revenue_passages)"
    using revenue_passages_no_brace by (simp add: str_list_no_brace)
  then have pre: "no_brace (prompt_head @ str_list revenue_passages @ prompt_mid)"
    by (simp add: no_brace_append prompt_head_no_brace prompt_mid_no_brace)
  have "make_prompt revenue_passages ''{0}''
          = (prompt_head @ str_list revenue_passages @ prompt_mid)
              @ (CHR ''{'' # CHR ''0'' # CHR ''}'' # prompt_tail)"
    by (simp add: make_prompt_def)
  then have "py_format orc [str_list revenue_passages, ''{0}''] Unset (make_prompt revenue_passages ''{0}'')
      = emit (prompt_head @ str_list revenue_passages @ prompt_mid)
          (py_format orc [str_list revenue_passages, ''{0}''] Unset
             (CHR ''{'' # CHR ''0'' # CHR ''}'' # prompt_tail))"
    by (simp only: py_format_append [OF pre])
  also have "\<dots> = emit (prompt_head @ str_list revenue_passages @ prompt_mid)
          (emit (str_list revenue_passages)
             (py_format orc [str_list revenue_passages, ''{0}''] Manual prompt_tail))"
    by (simp only: py_format_field0) (simp add: lookup_arg_def)
  also have "\<dots> = Inr (make_prompt revenue_passages (str_list revenue_passages))"
    by (simp add: py_format_identity [OF prompt_tail_no_brace] emit_Inr make_prompt_def)
  finally show ?thesis .
qed

text \<open>
  Claim C10. The \<^verbatim>\<open>format\<close> call on the already interpolated prompt reads the braces of
  the query as replacement fields. With brace-free passages and the query \<^verbatim>\<open>{0}\<close>, it
  replaces the query by the text of the passage list, so the message text that the handler
  prepares is not the assembled prompt.
\<close>

theorem format_not_identity_with_braces:
  "list_all no_brace revenue_passages \<and>
   py_format (format_field ok_env) [str_list revenue_passages, ''{0}''] Unset
       (make_prompt revenue_passages ''{0}'')
     = Inr (make_prompt revenue_passages (str_list revenue_passages)) \<and>
   py_format (format_field ok_env) [str_list revenue_passages, ''{0}''] Unset
       (make_prompt revenue_passages ''{0}'')
     \<noteq> Inr (make_prompt revenue_passages ''{0}'')"
proof -
  have a: "list_all no_brace revenue_passages"
    using revenue_passages_no_brace by (simp add: list_all_iff)
  have ne: "str_list revenue_passages \<noteq> ''{0}''"
    by (simp add: str_list_def revenue_passages_def)
  have "make_prompt revenue_passages (str_list revenue_passages) \<noteq> make_prompt revenue_passages ''{0}''"
    using make_prompt_inject ne by blast
  with a format_braces_value [of "format_field ok_env"] show ?thesis by simp
qed

section \<open>Deletion: the sequence of outbound calls\<close>

lemma calls_between_refl: "calls_between w w []"
  by (simp add: calls_between_def)

lemma calls_between_trans:
  "calls_between w w1 a \<Longrightarrow> calls_between w1 w2 b \<Longrightarrow> calls_between w w2 (a @ b)"
  by (auto simp: calls_between_def)

lemma calls_between_logger: "calls_between w w' cs \<Longrightarrow> calls_between w (logger l m w') cs"
  by (simp add: calls_between_def logger_def)

lemma calls_between_outbound: "outbound svc c w = (r, w') \<Longrightarrow> calls_between w w' [c]"
  by (auto simp: outbound_def Let_def calls_between_def)

lemma outbound_result: "outbound svc c w = (r, w') \<Longrightarrow> r = svc (trace w) c"
  by (auto simp: outbound_def Let_def)

lemma delete_data_sources_calls:
  "delete_data_sources ev kid dss w = (r, w') \<Longrightarrow>
   \<exists>n\<le>length dss. calls_between w w' (map (DeleteDataSource kid) (take n dss)) \<and>
        (r = Inr () \<longrightarrow> n = length dss)"
proof (induction dss arbitrary: w)
  case Nil
  then show ?case by (auto simp: calls_between_refl)
next
  case (Cons ds dss)
  obtain r1 w1 where o: "outbound (delete_data_source ev) (DeleteDataSource kid ds) w = (r1, w1)"
    by (cases "outbound (delete_data_source ev) (DeleteDataSource kid ds) w")
  have c1: "calls_between w w1 [DeleteDataSource kid ds]" by (rule calls_between_outbound [OF o])
  show ?case
  proof (cases r1)
    case (Inl e)
    with Cons.prems o have "w' = w1" "r = Inl e" by simp_all
    with c1 have "calls_between w w' (map (DeleteDataSource kid) (take 1 (ds # dss)))" by simp
    moreover have "r \<noteq> Inr ()" using \<open>r = Inl e\<close> by simp
    ultimately show ?thesis by (intro exI [of _ 1]) simp
  next
    case (Inr u)
    with Cons.prems o have
      rec: "delete_data_sources ev kid dss (logger INFO (''Deleted data source: '' @ ds) w1) = (r, w')"
      by simp
    from Cons.IH [OF rec] obtain n where n: "n \<le> length dss"
      and cb: "calls_between (logger INFO (''Deleted data source: '' @ ds) w1) w'
                 (map (DeleteDataSource kid) (take n dss))"
      and fin: "r = Inr () \<longrightarrow> n = length dss" by blast
    have "calls_between w (logger INFO (''Deleted data source: '' @ ds) w1) [DeleteDataSource kid ds]"
      by (rule calls_between_logger [OF c1])
    from calls_between_trans [OF this cb]
    have "calls_between w w' (map (DeleteDataSource kid) (take (Suc n) (ds # dss)))" by simp
    with n fin show ?thesis by (intro exI [of _ "Suc n"]) simp
  qed
qed

lemma empty_and_delete_bucket_calls:
  assumes "empty_and_delete_bucket ev b w = (r, w')"
  shows "\<exists>cs. calls_between w w' cs \<and> list_all is_storage_op cs"
proof -
  obtain r1 w1 where o1: "outbound (list_objects_v2 ev) (ListObjectsV2 b) w = (r1, w1)"
    by (cases "outbound (list_objects_v2 ev) (ListObjectsV2 b) w")
  have c1: "calls_between w w1 [ListObjectsV2 b]" by (rule calls_between_outbound [OF o1])
  show ?thesis
  proof (cases r1)
    case (Inl e)
    with assms o1 have "w' = w1" by (simp add: empty_and_delete_bucket_def)
    with c1 show ?thesis by (intro exI [of _ "[ListObjectsV2 b]"]) (simp add: is_storage_op_def)
  next
    case (Inr objects)
    obtain r2 w2 where o2:
      "(case objects of None \<Rightarrow> (Inr (), w1)
        | Some keys \<Rightarrow> outbound (delete_objects ev) (DeleteObjects b keys) w1) = (r2, w2)"
      by (cases "(case objects of None \<Rightarrow> (Inr (), w1)
        | Some keys \<Rightarrow> outbound (delete_objects ev) (DeleteObjects b keys) w1)")
    have "\<exists>cs2. calls_between w1 w2 cs2 \<and> list_all is_storage_op cs2"
    proof (cases objects)
      case None
      with o2 have "w2 = w1" by simp
      then show ?thesis by (intro exI [of _ "[]"]) (simp add: calls_between_refl)
    next
      case (Some keys)
      with o2 have "outbound (delete_objects ev) (DeleteObjects b keys) w1 = (r2, w2)" by simp
      from calls_between_outbound [OF this]
      show ?thesis by (intro exI [of _ "[DeleteObjects b keys]"]) (simp add: is_storage_op_def)
    qed
    then obtain cs2 where c2: "calls_between w1 w2 cs2" and s2: "list_all is_storage_op cs2" by blast
    have c12: "calls_between w w2 ([ListObjectsV2 b] @ cs2)" by (rule calls_between_trans [OF c1 c2])
    show ?thesis
    proof (cases r2)
      case (Inl e)
      with assms o1 o2 Inr have "w' = w2" by (simp add: empty_and_delete_bucket_def)
      with c12 s2 show ?thesis
        by (intro exI [of _ "[ListObjectsV2 b] @ cs2"]) (simp add: is_storage_op_def)
    next
      case u: (Inr u)
      obtain r3 w3 where o3: "outbound (delete_bucket ev) (DeleteBucket b) w2 = (r3, w3)"
        by (cases "outbound (delete_bucket ev) (DeleteBucket b) w2")
      have c3: "calls_between w2 w3 [DeleteBucket b]" by (rule calls_between_outbound [OF o3])
      have c123: "calls_between w w3 (([ListObjectsV2 b] @ cs2) @ [DeleteBucket b])"
        by (rule calls_between_trans [OF c12 c3])
      have "w' = w3 \<or> w' = logger INFO (''Deleted S3 bucket: '' @ b) w3"
        using assms o1 o2 o3 Inr u
        by (cases r3) (simp_all add: empty_and_delete_bucket_def)
      then have "calls_between w w' (([ListObjectsV2 b] @ cs2) @ [DeleteBucket b])"
        using c123 calls_between_logger [OF c123] by auto
      with s2 show ?thesis
        by (intro exI [of _ "([ListObjectsV2 b] @ cs2) @ [DeleteBucket b]"])
           (simp add: is_storage_op_def)
    qed
  qed
qed

lemma delete_buckets_calls:
  "delete_buckets ev srcs w = (r, w') \<Longrightarrow>
   \<exists>cs. calls_between w w' cs \<and> list_all is_storage_op cs"
proof (induction srcs arbitrary: w)
  case Nil
  then show ?case by (intro exI [of _ "[]"]) (simp add: calls_between_refl)
next
  case (Cons s srcs)
  show ?case
  proof (cases "src_type s = ''S3''")
    case False
    with Cons.prems have "delete_buckets ev srcs w = (r, w')" by simp
    then show ?thesis by (rule Cons.IH)
  next
    case True
    obtain r1 w1 where e: "empty_and_delete_bucket ev (bucket_name s) w = (r1, w1)"
      by (cases "empty_and_delete_bucket ev (bucket_name s) w")
    from empty_and_delete_bucket_calls [OF e]
    obtain cs1 where c1: "calls_between w w1 cs1" and s1: "list_all is_storage_op cs1" by blast
    show ?thesis
    proof (cases r1)
      case (Inl x)
      with Cons.prems True e have "w' = w1" by simp
      with c1 s1 show ?thesis by blast
    next
      case (Inr u)
      with Cons.prems True e have "delete_buckets ev srcs w1 = (r, w')" by simp
      from Cons.IH [OF this]
      obtain cs2 where c2: "calls_between w1 w' cs2" and s2: "list_all is_storage_op cs2" by blast
      from calls_between_trans [OF c1 c2] s1 s2 show ?thesis
        by (intro exI [of _ "cs1 @ cs2"]) simp
    qed
  qed
qed

lemma order_from_split:
  assumes a: "\<forall>c\<in>set a. \<not> Q c" and b: "\<forall>c\<in>set b. \<not> P c"
  shows "\<forall>i j. i < length (a @ b) \<and> j < length (a @ b) \<and> P ((a @ b) ! i) \<and> Q ((a @ b) ! j)
           \<longrightarrow> i < j"
proof (intro allI impI)
  fix i j
  assume h: "i < length (a @ b) \<and> j < length (a @ b) \<and> P ((a @ b) ! i) \<and> Q ((a @ b) ! j)"
  have i: "i < length a"
  proof (rule ccontr)
    assume n: "\<not> i < length a"
    from h have "i < length a + length b" by simp
    with n have "(a @ b) ! i = b ! (i - length a)" "i - length a < length b"
      by (simp_all add: nth_append)
    then have "(a @ b) ! i \<in> set b" by simp
    with b h show False by blast
  qed
  have j: "\<not> j < length a"
  proof
    assume "j < length a"
    then have "(a @ b) ! j \<in> set a" by (simp add: nth_append)
    with a h show False by blast
  qed
  from i j show "i < j" by simp
qed

lemma storage_not_other:
  "is_storage_op c \<Longrightarrow> \<not> is_kb_deletion c \<and> \<not> is_binding_deletion c"
  by (cases c) (simp_all add: is_storage_op_def is_kb_deletion_def is_binding_deletion_def)

lemma delete_kb_try_calls:
  assumes "delete_kb_try ev k b w = (r, w')"
  shows "\<exists>cs. calls_between w w' cs \<and>
     (cs = [] \<or>
      (\<exists>kid ds'. cs = ListDataSources kid # map (DeleteDataSource kid) ds') \<or>
      (\<exists>kid dss ops.
          list_data_sources ev (trace w) (ListDataSources kid) = Inr dss \<and>
          cs = (ListDataSources kid # map (DeleteDataSource kid) dss) @ DeleteKnowledgeBase kid # ops \<and>
          list_all is_storage_op ops))"
proof (cases "kb_id k")
  case None
  with assms have "w' = w" by (simp add: delete_kb_try_def)
  then show ?thesis by (intro exI [of _ "[]"]) (simp add: calls_between_refl)
next
  case (Some kid)
  show ?thesis
  proof (cases "kid = []")
    case True
    with assms Some have "w' = w" by (simp add: delete_kb_try_def)
    then show ?thesis by (intro exI [of _ "[]"]) (simp add: calls_between_refl)
  next
    case False
    obtain r1 w1 where o1: "outbound (list_data_sources ev) (ListDataSources kid) w = (r1, w1)"
      by (cases "outbound (list_data_sources ev) (ListDataSources kid) w")
    have c1: "calls_between w w1 [ListDataSources kid]" by (rule calls_between_outbound [OF o1])
    have r1: "r1 = list_data_sources ev (trace w) (ListDataSources kid)"
      by (rule outbound_result [OF o1])
    show ?thesis
    proof (cases r1)
      case (Inl e)
      with assms Some False o1 have "w' = w1" by (simp add: delete_kb_try_def)
      with c1 have "calls_between w w' (ListDataSources kid # map (DeleteDataSource kid) [])" by simp
      then show ?thesis by blast
    next
      case (Inr dss)
      obtain r2 w2 where d: "delete_data_sources ev kid dss w1 = (r2, w2)"
        by (cases "delete_data_sources ev kid dss w1")
      from delete_data_sources_calls [OF d] obtain n where
        c2: "calls_between w1 w2 (map (DeleteDataSource kid) (take n dss))"
        and fin: "r2 = Inr () \<longrightarrow> n = length dss" by blast
      have c12: "calls_between w w2 ([ListDataSources kid] @ map (DeleteDataSource kid) (take n dss))"
        by (rule calls_between_trans [OF c1 c2])
      show ?thesis
      proof (cases r2)
        case (Inl e)
        with assms Some False o1 Inr d have "w' = w2" by (simp add: delete_kb_try_def)
        with c12 have "calls_between w w' (ListDataSources kid # map (DeleteDataSource kid) (take n dss))"
          by simp
        then show ?thesis by blast
      next
        case u: (Inr u)
        with fin have n: "take n dss = dss" by simp
        obtain r3 w3 where o3: "outbound (delete_knowledge_base ev) (DeleteKnowledgeBase kid) w2 = (r3, w3)"
          by (cases "outbound (delete_knowledge_base ev) (DeleteKnowledgeBase kid) w2")
        have c3: "calls_between w2 w3 [DeleteKnowledgeBase kid]" by (rule calls_between_outbound [OF o3])
        have c123: "calls_between w w3
            (([ListDataSources kid] @ map (DeleteDataSource kid) dss) @ [DeleteKnowledgeBase kid])"
          using calls_between_trans [OF c12 c3] n by simp
        have l: "list_data_sources ev (trace w) (ListDataSources kid) = Inr dss"
          using r1 Inr by simp
        show ?thesis
        proof (cases r3)
          case (Inl e)
          with assms Some False o1 Inr d u o3 have "w' = w3" by (simp add: delete_kb_try_def)
          with c123 have cb: "calls_between w w'
             ((ListDataSources kid # map (DeleteDataSource kid) dss) @ DeleteKnowledgeBase kid # [])"
            by simp
          have "list_all is_storage_op []" by simp
          with l cb show ?thesis by blast
        next
          case v: (Inr v)
          let ?w4 = "logger INFO (''Deleted Knowledge Base: '' @ kid) w3"
          have c4: "calls_between w ?w4
            (([ListDataSources kid] @ map (DeleteDataSource kid) dss) @ [DeleteKnowledgeBase kid])"
            by (rule calls_between_logger [OF c123])
          have "\<exists>ops. calls_between ?w4 w' ops \<and> list_all is_storage_op ops"
          proof (cases b)
            case True
            with assms Some False o1 Inr d u o3 v
            have "delete_buckets ev (data_sources k) ?w4 = (r, w')"
              by (simp add: delete_kb_try_def Let_def)
            then show ?thesis by (rule delete_buckets_calls)
          next
            case False
            with assms Some \<open>kid \<noteq> []\<close> o1 Inr d u o3 v
            have "w' = ?w4" by (simp add: delete_kb_try_def Let_def)
            then show ?thesis by (intro exI [of _ "[]"]) (simp add: calls_between_refl)
          qed
          then obtain ops where c5: "calls_between ?w4 w' ops" and s: "list_all is_storage_op ops"
            by blast
          from calls_between_trans [OF c4 c5]
          have cb: "calls_between w w'
             ((ListDataSources kid # map (DeleteDataSource kid) dss) @ DeleteKnowledgeBase kid # ops)"
            by simp
          with l s show ?thesis by blast
        qed
      qed
    qed
  qed
qed

section \<open>Runs: which call an exception comes from\<close>

lemma quiet_append: "quiet (a @ b) \<longleftrightarrow> quiet a \<and> quiet b"
  by (simp add: quiet_def)

lemma run_refl: "run w w None"
  by (simp add: run_def quiet_def)

lemma run_seq:
  assumes "run w w1 None" and "run w1 w2 out"
  shows "run w w2 out"
proof -
  from assms(1) obtain n1 where n1: "trace w1 = trace w @ n1" "quiet n1"
    by (auto simp: run_def)
  show ?thesis
  proof (cases out)
    case None
    with assms(2) obtain n2 where "trace w2 = trace w1 @ n2" "quiet n2" by (auto simp: run_def)
    with n1 have "trace w2 = trace w @ (n1 @ n2)" "quiet (n1 @ n2)" by (simp_all add: quiet_append)
    with None show ?thesis unfolding run_def by (intro exI [of _ "n1 @ n2"]) simp
  next
    case (Some e)
    with assms(2) obtain pre c where
      "trace w2 = trace w1 @ pre @ [(c, Some e)]" "quiet pre" "\<not> is_bucket_creation c"
      by (auto simp: run_def)
    with n1 have "trace w2 = trace w @ ((n1 @ pre) @ [(c, Some e)])" "quiet (n1 @ pre)"
      "\<not> is_bucket_creation c" by (simp_all add: quiet_append)
    with Some show ?thesis unfolding run_def
      by (intro exI [of _ "(n1 @ pre) @ [(c, Some e)]"]) auto
  qed
qed

lemma run_logger: "run w w' out \<Longrightarrow> run w (logger l m w') out"
  by (simp add: run_def logger_def)

lemma run_from_logger: "run (logger l m w) w' out \<Longrightarrow> run w w' out"
  by (simp add: run_def logger_def)

lemma run_outbound:
  assumes "outbound svc c w = (r, w')" and "\<not> is_bucket_creation c"
  shows "run w w' (raised r)"
proof -
  from assms(1) have t: "trace w' = trace w @ [(c, raised r)]"
    by (auto simp: outbound_def Let_def)
  show ?thesis
  proof (cases r)
    case (Inl e)
    with t assms(2) show ?thesis unfolding run_def
      by (intro exI [of _ "[(c, Some e)]"]) (simp add: raised_def quiet_def)
  next
    case (Inr x)
    with t show ?thesis unfolding run_def
      by (intro exI [of _ "[(c, None)]"]) (simp add: raised_def quiet_def)
  qed
qed


lemma run_bind:
  assumes "(case m of (Inl e, w1) \<Rightarrow> (Inl e, w1) | (Inr x, w1) \<Rightarrow> f x w1) = (r, w')"
    and "\<And>r1 w1. m = (r1, w1) \<Longrightarrow> run w w1 (raised r1)"
    and "\<And>x w1. m = (Inr x, w1) \<Longrightarrow> f x w1 = (r, w') \<Longrightarrow> run w1 w' (raised r)"
  shows "run w w' (raised r)"
proof (cases m)
  case (Pair r1 w1)
  show ?thesis
  proof (cases r1)
    case (Inl e)
    with Pair assms(1) have "r = Inl e" "w' = w1" by simp_all
    with assms(2) [OF Pair] Inl show ?thesis by (simp add: raised_def)
  next
    case (Inr x)
    with Pair assms(1) have "f x w1 = (r, w')" by simp
    from assms(3) [OF _ this] Pair Inr have "run w1 w' (raised r)" by simp
    moreover from assms(2) [OF Pair] Inr have "run w w1 None" by (simp add: raised_def)
    ultimately show ?thesis by (rule run_seq [rotated])
  qed
qed

lemma run_wrap:
  assumes "(case m of (Inr x, w1) \<Rightarrow> (Inr (g x), h x w1) | (Inl e, w1) \<Rightarrow> (Inl e, logger l (msg e) w1))
             = (r, w')"
    and "\<And>r1 w1. m = (r1, w1) \<Longrightarrow> run w w1 (raised r1)"
    and "\<And>x w1 out. run w w1 out \<Longrightarrow> run w (h x w1) out"
  shows "run w w' (raised r)"
proof (cases m)
  case (Pair r1 w1)
  show ?thesis
  proof (cases r1)
    case (Inl e)
    with Pair assms(1) have "r = Inl e" "w' = logger l (msg e) w1" by simp_all
    with assms(2) [OF Pair] Inl show ?thesis by (simp add: raised_def run_logger)
  next
    case (Inr x)
    with Pair assms(1) have "r = Inr (g x)" "w' = h x w1" by simp_all
    with assms(2) [OF Pair] Inr assms(3) show ?thesis by (simp add: raised_def)
  qed
qed

lemma run_trace_eq: "run w w1 out \<Longrightarrow> trace w' = trace w1 \<Longrightarrow> run w w' out"
  by (simp add: run_def)

lemma not_bucket_creation [simp]:
  "\<not> is_bucket_creation (CreateRole a)"
  "\<not> is_bucket_creation (CreatePolicy a bs)"
  "\<not> is_bucket_creation (AttachRolePolicy a b)"
  "\<not> is_bucket_creation (CreateKnowledgeBase a b c d)"
  "\<not> is_bucket_creation (CreateDataSource ko a b c)"
  "\<not> is_bucket_creation (ListDataSources a)"
  "\<not> is_bucket_creation (DeleteDataSource a b)"
  "\<not> is_bucket_creation (DeleteKnowledgeBase a)"
  "\<not> is_bucket_creation (ListObjectsV2 a)"
  "\<not> is_bucket_creation (DeleteObjects a bs)"
  "\<not> is_bucket_creation (DeleteBucket a)"
  by (simp_all add: is_bucket_creation_def)

lemma run_return:
  assumes "(Inr x, w1) = (r, w')"
  shows "run w1 w' (raised r)"
proof -
  from assms have "r = Inr x" "w' = w1" by simp_all
  then show ?thesis by (simp add: raised_def run_refl)
qed








lemma run_delete_data_sources:
  "delete_data_sources ev kid dss w = (r, w') \<Longrightarrow> run w w' (raised r)"
proof (induction dss arbitrary: w)
  case Nil
  then show ?case by (auto simp: raised_def run_refl)
next
  case (Cons ds dss)
  from Cons.prems have
    "(case outbound (delete_data_source ev) (DeleteDataSource kid ds) w of
        (Inl e, w1) \<Rightarrow> (Inl e, w1)
      | (Inr x, w1) \<Rightarrow>
          delete_data_sources ev kid dss (logger INFO (''Deleted data source: '' @ ds) w1)) = (r, w')"
    by simp
  then show ?case
  proof (rule run_bind)
    fix r1 w1
    assume "outbound (delete_data_source ev) (DeleteDataSource kid ds) w = (r1, w1)"
    then show "run w w1 (raised r1)" by (rule run_outbound) simp
  next
    fix x w1
    assume "delete_data_sources ev kid dss (logger INFO (''Deleted data source: '' @ ds) w1) = (r, w')"
    from Cons.IH [OF this] show "run w1 w' (raised r)" by (rule run_from_logger)
  qed
qed

lemma run_empty_and_delete_bucket:
  assumes "empty_and_delete_bucket ev b w = (r, w')"
  shows "run w w' (raised r)"
  using assms unfolding empty_and_delete_bucket_def
proof (rule run_bind)
  fix r1 w1
  assume "outbound (list_objects_v2 ev) (ListObjectsV2 b) w = (r1, w1)"
  then show "run w w1 (raised r1)" by (rule run_outbound) simp
next
  fix objects w1
  assume "(case (case objects of None \<Rightarrow> (Inr (), w1)
                 | Some keys \<Rightarrow> outbound (delete_objects ev) (DeleteObjects b keys) w1) of
             (Inl e, w2) \<Rightarrow> (Inl e, w2)
           | (Inr x, w2) \<Rightarrow>
               (case outbound (delete_bucket ev) (DeleteBucket b) w2 of
                  (Inl e, w3) \<Rightarrow> (Inl e, w3)
                | (Inr y, w3) \<Rightarrow> (Inr (), logger INFO (''Deleted S3 bucket: '' @ b) w3))) = (r, w')"
  then show "run w1 w' (raised r)"
  proof (rule run_bind)
    fix r2 w2
    assume m: "(case objects of None \<Rightarrow> (Inr (), w1)
                | Some keys \<Rightarrow> outbound (delete_objects ev) (DeleteObjects b keys) w1) = (r2, w2)"
    show "run w1 w2 (raised r2)"
    proof (cases objects)
      case None
      with m have "(Inr (), w1) = (r2, w2)" by simp
      then show ?thesis by (rule run_return)
    next
      case (Some keys)
      with m have "outbound (delete_objects ev) (DeleteObjects b keys) w1 = (r2, w2)" by simp
      then show ?thesis by (rule run_outbound) simp
    qed
  next
    fix x w2
    assume "(case outbound (delete_bucket ev) (DeleteBucket b) w2 of
               (Inl e, w3) \<Rightarrow> (Inl e, w3)
             | (Inr y, w3) \<Rightarrow> (Inr (), logger INFO (''Deleted S3 bucket: '' @ b) w3)) = (r, w')"
    then show "run w2 w' (raised r)"
    proof (rule run_bind)
      fix r3 w3
      assume "outbound (delete_bucket ev) (DeleteBucket b) w2 = (r3, w3)"
      then show "run w2 w3 (raised r3)" by (rule run_outbound) simp
    next
      fix y w3
      assume "(Inr (), logger INFO (''Deleted S3 bucket: '' @ b) w3) = (r, w')"
      from run_return [OF this] show "run w3 w' (raised r)" by (rule run_from_logger)
    qed
  qed
qed

lemma run_delete_buckets:
  "delete_buckets ev srcs w = (r, w') \<Longrightarrow> run w w' (raised r)"
proof (induction srcs arbitrary: w)
  case Nil
  then show ?case by (auto simp: raised_def run_refl)
next
  case (Cons s srcs)
  show ?case
  proof (cases "src_type s = ''S3''")
    case False
    with Cons.prems have "delete_buckets ev srcs w = (r, w')" by simp
    then show ?thesis by (rule Cons.IH)
  next
    case True
    with Cons.prems have
      "(case empty_and_delete_bucket ev (bucket_name s) w of
          (Inl e, w1) \<Rightarrow> (Inl e, w1)
        | (Inr x, w1) \<Rightarrow> delete_buckets ev srcs w1) = (r, w')" by simp
    then show ?thesis
      by (rule run_bind) (erule run_empty_and_delete_bucket, erule Cons.IH)
  qed
qed

lemma run_delete_kb_try:
  assumes "delete_kb_try ev k b w = (r, w')"
  shows "run w w' (raised r)"
proof (cases "kb_id k")
  case None
  with assms have "(Inr (), w) = (r, w')" by (simp add: delete_kb_try_def)
  then show ?thesis by (rule run_return)
next
  case (Some kid)
  show ?thesis
  proof (cases "kid = []")
    case True
    with assms Some have "(Inr (), w) = (r, w')" by (simp add: delete_kb_try_def)
    then show ?thesis by (rule run_return)
  next
    case False
    with assms Some have
      "(case outbound (list_data_sources ev) (ListDataSources kid) w of
          (Inl e, w1) \<Rightarrow> (Inl e, w1)
        | (Inr dss, w1) \<Rightarrow>
            (case delete_data_sources ev kid dss w1 of
               (Inl e, w2) \<Rightarrow> (Inl e, w2)
             | (Inr x, w2) \<Rightarrow>
                 (case outbound (delete_knowledge_base ev) (DeleteKnowledgeBase kid) w2 of
                    (Inl e, w3) \<Rightarrow> (Inl e, w3)
                  | (Inr y, w3) \<Rightarrow>
                      (let w4 = logger INFO (''Deleted Knowledge Base: '' @ kid) w3
                       in if b then delete_buckets ev (data_sources k) w4
                          else (Inr (), w4))))) = (r, w')"
      by (simp add: delete_kb_try_def)
    then show ?thesis
    proof (rule run_bind)
      fix r1 w1
      assume "outbound (list_data_sources ev) (ListDataSources kid) w = (r1, w1)"
      then show "run w w1 (raised r1)" by (rule run_outbound) simp
    next
      fix dss w1
      assume "(case delete_data_sources ev kid dss w1 of
               (Inl e, w2) \<Rightarrow> (Inl e, w2)
             | (Inr x, w2) \<Rightarrow>
                 (case outbound (delete_knowledge_base ev) (DeleteKnowledgeBase kid) w2 of
                    (Inl e, w3) \<Rightarrow> (Inl e, w3)
                  | (Inr y, w3) \<Rightarrow>
                      (let w4 = logger INFO (''Deleted Knowledge Base: '' @ kid) w3
                       in if b then delete_buckets ev (data_sources k) w4
                          else (Inr (), w4)))) = (r, w')"
      then show "run w1 w' (raised r)"
      proof (rule run_bind)
        fix r2 w2
        assume "delete_data_sources ev kid dss w1 = (r2, w2)"
        then show "run w1 w2 (raised r2)" by (rule run_delete_data_sources)
      next
        fix x w2
        assume "(case outbound (delete_knowledge_base ev) (DeleteKnowledgeBase kid) w2 of
                    (Inl e, w3) \<Rightarrow> (Inl e, w3)
                  | (Inr y, w3) \<Rightarrow>
                      (let w4 = logger INFO (''Deleted Knowledge Base: '' @ kid) w3
                       in if b then delete_buckets ev (data_sources k) w4
                          else (Inr (), w4))) = (r, w')"
        then show "run w2 w' (raised r)"
        proof (rule run_bind)
          fix r3 w3
          assume "outbound (delete_knowledge_base ev) (DeleteKnowledgeBase kid) w2 = (r3, w3)"
          then show "run w2 w3 (raised r3)" by (rule run_outbound) simp
        next
          fix y w3
          assume f: "(let w4 = logger INFO (''Deleted Knowledge Base: '' @ kid) w3
                       in if b then delete_buckets ev (data_sources k) w4
                          else (Inr (), w4)) = (r, w')"
          let ?w4 = "logger INFO (''Deleted Knowledge Base: '' @ kid) w3"
          have "run ?w4 w' (raised r)"
          proof (cases b)
            case True
            with f have "delete_buckets ev (data_sources k) ?w4 = (r, w')" by (simp add: Let_def)
            then show ?thesis by (rule run_delete_buckets)
          next
            case False
            with f have "(Inr (), ?w4) = (r, w')" by (simp add: Let_def)
            then show ?thesis by (rule run_return)
          qed
          then show "run w3 w' (raised r)" by (rule run_from_logger)
        qed
      qed
    qed
  qed
qed

lemma run_delete_kb:
  assumes "delete_kb ev k b w = (r, w')"
  shows "run w w' (raised r)"
proof -
  obtain r1 w1 where t: "delete_kb_try ev k b w = (r1, w1)"
    by (cases "delete_kb_try ev k b w")
  have "raised r = raised r1 \<and> trace w' = trace w1"
    using assms t by (cases r1) (auto simp: delete_kb_def raised_def trace_logger)
  with run_delete_kb_try [OF t] show ?thesis by (simp add: run_trace_eq)
qed

section \<open>Provisioning: properties\<close>






section \<open>Deletion and cleanup: properties\<close>

lemma calls_between_unique: "calls_between w w' a \<Longrightarrow> calls_between w w' b \<Longrightarrow> a = b"
  by (auto simp: calls_between_def)

lemma calls_between_trace_eq:
  "calls_between w w1 cs \<Longrightarrow> trace w' = trace w1 \<Longrightarrow> calls_between w w' cs"
  by (simp add: calls_between_def)

lemma delete_kb_calls:
  assumes "delete_kb ev k b w = (r, w')"
  shows "\<exists>cs. calls_between w w' cs \<and>
     (cs = [] \<or>
      (\<exists>kid ds'. cs = ListDataSources kid # map (DeleteDataSource kid) ds') \<or>
      (\<exists>kid dss ops.
          list_data_sources ev (trace w) (ListDataSources kid) = Inr dss \<and>
          cs = (ListDataSources kid # map (DeleteDataSource kid) dss) @ DeleteKnowledgeBase kid # ops \<and>
          list_all is_storage_op ops))"
proof -
  obtain r1 w1 where t: "delete_kb_try ev k b w = (r1, w1)"
    by (cases "delete_kb_try ev k b w")
  have e: "trace w' = trace w1"
    using assms t by (cases r1) (auto simp: delete_kb_def trace_logger)
  from delete_kb_try_calls [OF t] obtain cs where c: "calls_between w w1 cs"
    and s: "cs = [] \<or>
      (\<exists>kid ds'. cs = ListDataSources kid # map (DeleteDataSource kid) ds') \<or>
      (\<exists>kid dss ops.
          list_data_sources ev (trace w) (ListDataSources kid) = Inr dss \<and>
          cs = (ListDataSources kid # map (DeleteDataSource kid) dss) @ DeleteKnowledgeBase kid # ops \<and>
          list_all is_storage_op ops)"
    by (elim exE conjE)
  from c e have "calls_between w w' cs" by (rule calls_between_trace_eq)
  with s show ?thesis by (intro exI conjI)
qed

lemma listing_prefix_kinds:
  "\<forall>c\<in>set (ListDataSources kid # map (DeleteDataSource kid) dss).
     \<not> is_kb_deletion c \<and> \<not> is_storage_op c"
  by (auto simp: is_kb_deletion_def is_storage_op_def)

lemma order_no_second:
  assumes "\<forall>c\<in>set cs. \<not> Q c"
  shows "\<forall>i j. i < length cs \<and> j < length cs \<and> P (cs ! i) \<and> Q (cs ! j) \<longrightarrow> i < j"
proof (intro allI impI)
  fix i j
  assume h: "i < length cs \<and> j < length cs \<and> P (cs ! i) \<and> Q (cs ! j)"
  then have "cs ! j \<in> set cs" by simp
  with assms h show "i < j" by blast
qed

lemma bindings_before_kb:
  assumes "cs = [] \<or>
      (\<exists>kid ds'. cs = ListDataSources kid # map (DeleteDataSource kid) ds') \<or>
      (\<exists>kid dss ops.
          L kid = Inr dss \<and>
          cs = (ListDataSources kid # map (DeleteDataSource kid) dss) @ DeleteKnowledgeBase kid # ops \<and>
          list_all is_storage_op ops)"
  shows "\<forall>i j. i < length cs \<and> j < length cs \<and> is_binding_deletion (cs ! i) \<and> is_kb_deletion (cs ! j)
           \<longrightarrow> i < j"
  using assms
proof (elim disjE exE conjE)
  assume "cs = []"
  then show ?thesis by simp
next
  fix kid ds'
  assume c: "cs = ListDataSources kid # map (DeleteDataSource kid) ds'"
  have "\<forall>c\<in>set cs. \<not> is_kb_deletion c" unfolding c using listing_prefix_kinds by blast
  then show ?thesis by (rule order_no_second)
next
  fix kid dss ops
  assume c: "cs = (ListDataSources kid # map (DeleteDataSource kid) dss) @ DeleteKnowledgeBase kid # ops"
    and o: "list_all is_storage_op ops"
  have a: "\<forall>c\<in>set (ListDataSources kid # map (DeleteDataSource kid) dss). \<not> is_kb_deletion c"
    using listing_prefix_kinds by blast
  have "\<not> is_binding_deletion (DeleteKnowledgeBase kid)" by (simp add: is_binding_deletion_def)
  moreover from o have "\<forall>c\<in>set ops. \<not> is_binding_deletion c"
    by (simp add: list_all_iff storage_not_other)
  ultimately have b: "\<forall>c\<in>set (DeleteKnowledgeBase kid # ops). \<not> is_binding_deletion c" by simp
  show ?thesis unfolding c by (rule order_from_split [OF a b])
qed

lemma kb_before_storage:
  assumes "cs = [] \<or>
      (\<exists>kid ds'. cs = ListDataSources kid # map (DeleteDataSource kid) ds') \<or>
      (\<exists>kid dss ops.
          L kid = Inr dss \<and>
          cs = (ListDataSources kid # map (DeleteDataSource kid) dss) @ DeleteKnowledgeBase kid # ops \<and>
          list_all is_storage_op ops)"
  shows "\<forall>i j. i < length cs \<and> j < length cs \<and> is_kb_deletion (cs ! i) \<and> is_storage_op (cs ! j)
           \<longrightarrow> i < j"
  using assms
proof (elim disjE exE conjE)
  assume "cs = []"
  then show ?thesis by simp
next
  fix kid ds'
  assume c: "cs = ListDataSources kid # map (DeleteDataSource kid) ds'"
  have "\<forall>c\<in>set cs. \<not> is_storage_op c" unfolding c using listing_prefix_kinds by blast
  then show ?thesis by (rule order_no_second)
next
  fix kid dss ops
  assume c: "cs = (ListDataSources kid # map (DeleteDataSource kid) dss) @ DeleteKnowledgeBase kid # ops"
    and o: "list_all is_storage_op ops"
  let ?a = "(ListDataSources kid # map (DeleteDataSource kid) dss) @ [DeleteKnowledgeBase kid]"
  have "\<forall>c\<in>set (ListDataSources kid # map (DeleteDataSource kid) dss). \<not> is_storage_op c"
    using listing_prefix_kinds by blast
  moreover have "\<not> is_storage_op (DeleteKnowledgeBase kid)" by (simp add: is_storage_op_def)
  ultimately have a: "\<forall>c\<in>set ?a. \<not> is_storage_op c" by simp
  from o have b: "\<forall>c\<in>set ops. \<not> is_kb_deletion c"
    by (simp add: list_all_iff storage_not_other)
  have e: "cs = ?a @ ops" unfolding c by simp
  show ?thesis unfolding e by (rule order_from_split [OF a b])
qed

lemma listed_bindings_deleted:
  assumes "cs = [] \<or>
      (\<exists>kid ds'. cs = ListDataSources kid # map (DeleteDataSource kid) ds') \<or>
      (\<exists>kid dss ops.
          L kid = Inr dss \<and>
          cs = (ListDataSources kid # map (DeleteDataSource kid) dss) @ DeleteKnowledgeBase kid # ops \<and>
          list_all is_storage_op ops)"
  shows "\<forall>kid dss. DeleteKnowledgeBase kid \<in> set cs \<and> L kid = Inr dss
           \<longrightarrow> (\<forall>ds\<in>set dss. DeleteDataSource kid ds \<in> set cs)"
  using assms
proof (elim disjE exE conjE)
  assume "cs = []"
  then show ?thesis by simp
next
  fix kid ds'
  assume c: "cs = ListDataSources kid # map (DeleteDataSource kid) ds'"
  have "DeleteKnowledgeBase kid' \<notin> set cs" for kid'
    unfolding c by auto
  then show ?thesis by simp
next
  fix kid dss ops
  assume l: "L kid = Inr dss"
    and c: "cs = (ListDataSources kid # map (DeleteDataSource kid) dss) @ DeleteKnowledgeBase kid # ops"
    and o: "list_all is_storage_op ops"
  have n: "DeleteKnowledgeBase kid' \<notin> set ops" for kid'
  proof
    assume "DeleteKnowledgeBase kid' \<in> set ops"
    with o have "is_storage_op (DeleteKnowledgeBase kid')" by (simp add: list_all_iff)
    then show False by (simp add: is_storage_op_def)
  qed
  show ?thesis
  proof (intro allI impI ballI)
    fix kid' dss' ds
    assume h: "DeleteKnowledgeBase kid' \<in> set cs \<and> L kid' = Inr dss'" and d: "ds \<in> set dss'"
    from h n have k: "kid' = kid" unfolding c by auto
    with h l have "dss' = dss" by simp
    with d k show "DeleteDataSource kid' ds \<in> set cs" unfolding c by simp
  qed
qed

lemma storage_only_after_kb:
  assumes "cs = [] \<or>
      (\<exists>kid ds'. cs = ListDataSources kid # map (DeleteDataSource kid) ds') \<or>
      (\<exists>kid dss ops.
          L kid = Inr dss \<and>
          cs = (ListDataSources kid # map (DeleteDataSource kid) dss) @ DeleteKnowledgeBase kid # ops \<and>
          list_all is_storage_op ops)"
  shows "list_ex is_storage_op cs \<longrightarrow> list_ex is_kb_deletion cs"
  using assms
proof (elim disjE exE conjE)
  assume "cs = []"
  then show ?thesis by simp
next
  fix kid ds'
  assume c: "cs = ListDataSources kid # map (DeleteDataSource kid) ds'"
  have "\<forall>c\<in>set cs. \<not> is_storage_op c" unfolding c using listing_prefix_kinds by blast
  then show ?thesis by (simp add: list_ex_iff)
next
  fix kid dss ops
  assume c: "cs = (ListDataSources kid # map (DeleteDataSource kid) dss) @ DeleteKnowledgeBase kid # ops"
  have "is_kb_deletion (DeleteKnowledgeBase kid)" by (simp add: is_kb_deletion_def)
  then show ?thesis unfolding c by (simp add: list_ex_iff)
qed

text \<open>
  Claim C4. In every execution of the deletion with the storage purge requested, in the
  sequence of outbound calls it makes: every deletion of a data-source binding comes before
  every deletion of the knowledge base, every deletion of the knowledge base comes before
  every operation on a storage bucket, the knowledge base is deleted only when every listed
  data source has been deleted, and a storage bucket is touched only when the knowledge base
  has been deleted.
\<close>

theorem delete_order:
  assumes "delete_kb ev k True w = (r, w')"
  shows "\<exists>cs. calls_between w w' cs \<and>
     (\<forall>i j. i < length cs \<and> j < length cs \<and> is_binding_deletion (cs ! i) \<and> is_kb_deletion (cs ! j)
        \<longrightarrow> i < j) \<and>
     (\<forall>i j. i < length cs \<and> j < length cs \<and> is_kb_deletion (cs ! i) \<and> is_storage_op (cs ! j)
        \<longrightarrow> i < j) \<and>
     (\<forall>kid dss. DeleteKnowledgeBase kid \<in> set cs \<and>
         list_data_sources ev (trace w) (ListDataSources kid) = Inr dss
        \<longrightarrow> (\<forall>ds\<in>set dss. DeleteDataSource kid ds \<in> set cs)) \<and>
     (list_ex is_storage_op cs \<longrightarrow> list_ex is_kb_deletion cs)"
proof -
  from delete_kb_calls [OF assms] obtain cs where c: "calls_between w w' cs"
    and s: "cs = [] \<or>
      (\<exists>kid ds'. cs = ListDataSources kid # map (DeleteDataSource kid) ds') \<or>
      (\<exists>kid dss ops.
          list_data_sources ev (trace w) (ListDataSources kid) = Inr dss \<and>
          cs = (ListDataSources kid # map (DeleteDataSource kid) dss) @ DeleteKnowledgeBase kid # ops \<and>
          list_all is_storage_op ops)"
    by (elim exE conjE)
  note a1 = bindings_before_kb [of cs "\<lambda>kid. list_data_sources ev (trace w) (ListDataSources kid)", OF s]
  note a2 = kb_before_storage [of cs "\<lambda>kid. list_data_sources ev (trace w) (ListDataSources kid)", OF s]
  note a3 = listed_bindings_deleted [of cs "\<lambda>kid. list_data_sources ev (trace w) (ListDataSources kid)", OF s]
  note a4 = storage_only_after_kb [of cs "\<lambda>kid. list_data_sources ev (trace w) (ListDataSources kid)", OF s]
  from c a1 a2 a3 a4 show ?thesis by (intro exI [of _ cs] conjI)
qed

lemma ok_delete_trace:
  "trace (snd (delete_kb ok_env sample_kb True empty_world)) =
     [(ListDataSources ''KB1'', None),
      (DeleteDataSource ''KB1'' ''DS1'', None),
      (DeleteKnowledgeBase ''KB1'', None),
      (ListObjectsV2 ''bedrock-kb-data-0000001-1'', None),
      (DeleteObjects ''bedrock-kb-data-0000001-1'' [''report.pdf''], None),
      (DeleteBucket ''bedrock-kb-data-0000001-1'', None)]"
  by (simp add: delete_kb_def delete_kb_try_def empty_and_delete_bucket_def
      outbound_def logger_def raised_def Let_def ok_env_def sample_kb_def empty_world_def)

theorem delete_order_witness:
  "\<exists>cs. calls_between empty_world (snd (delete_kb ok_env sample_kb True empty_world)) cs \<and>
     cs = [ListDataSources ''KB1'',
           DeleteDataSource ''KB1'' ''DS1'',
           DeleteKnowledgeBase ''KB1'',
           ListObjectsV2 ''bedrock-kb-data-0000001-1'',
           DeleteObjects ''bedrock-kb-data-0000001-1'' [''report.pdf''],
           DeleteBucket ''bedrock-kb-data-0000001-1''] \<and>
     is_binding_deletion (cs ! 1) \<and> is_kb_deletion (cs ! 2) \<and> is_storage_op (cs ! 3) \<and>
     (1::nat) < 2 \<and> (2::nat) < 3 \<and>
     DeleteDataSource ''KB1'' ''DS1'' \<in> set cs \<and>
     list_ex is_kb_deletion cs"
proof -
  let ?x = "delete_kb ok_env sample_kb True empty_world"
  let ?CS = "[ListDataSources ''KB1'',
           DeleteDataSource ''KB1'' ''DS1'',
           DeleteKnowledgeBase ''KB1'',
           ListObjectsV2 ''bedrock-kb-data-0000001-1'',
           DeleteObjects ''bedrock-kb-data-0000001-1'' [''report.pdf''],
           DeleteBucket ''bedrock-kb-data-0000001-1'']"
  have h: "?x = (fst ?x, snd ?x)" by simp
  from delete_order [OF h] obtain cs where c: "calls_between empty_world (snd ?x) cs"
    and a1: "\<forall>i j. i < length cs \<and> j < length cs \<and> is_binding_deletion (cs ! i) \<and> is_kb_deletion (cs ! j)
        \<longrightarrow> i < j"
    and a2: "\<forall>i j. i < length cs \<and> j < length cs \<and> is_kb_deletion (cs ! i) \<and> is_storage_op (cs ! j)
        \<longrightarrow> i < j"
    and a3: "\<forall>kid dss. DeleteKnowledgeBase kid \<in> set cs \<and>
         list_data_sources ok_env (trace empty_world) (ListDataSources kid) = Inr dss
        \<longrightarrow> (\<forall>ds\<in>set dss. DeleteDataSource kid ds \<in> set cs)"
    and a4: "list_ex is_storage_op cs \<longrightarrow> list_ex is_kb_deletion cs"
    by (elim exE conjE)
  have "calls_between empty_world (snd ?x) ?CS"
    unfolding calls_between_def ok_delete_trace by (simp add: empty_world_def)
  with c have cs: "cs = ?CS" by (rule calls_between_unique)
  have k1: "is_binding_deletion (cs ! 1)" unfolding cs by (simp add: is_binding_deletion_def)
  have k2: "is_kb_deletion (cs ! 2)" unfolding cs by (simp add: is_kb_deletion_def)
  have k3: "is_storage_op (cs ! 3)" unfolding cs by (simp add: is_storage_op_def)
  have l1: "1 < length cs" unfolding cs by simp
  have l2: "2 < length cs" unfolding cs by simp
  have l3: "3 < length cs" unfolding cs by simp
  from l1 l2 k1 k2 have p1: "1 < length cs \<and> 2 < length cs \<and> is_binding_deletion (cs ! 1) \<and> is_kb_deletion (cs ! 2)"
    by (intro conjI)
  from l2 l3 k2 k3 have p2: "2 < length cs \<and> 3 < length cs \<and> is_kb_deletion (cs ! 2) \<and> is_storage_op (cs ! 3)"
    by (intro conjI)
  have p3: "DeleteKnowledgeBase ''KB1'' \<in> set cs \<and>
         list_data_sources ok_env (trace empty_world) (ListDataSources ''KB1'') = Inr [''DS1'']"
    unfolding cs by (simp add: ok_env_def)
  have o1: "(1::nat) < 2" by (rule a1 [rule_format, OF p1])
  have o2: "(2::nat) < 3" by (rule a2 [rule_format, OF p2])
  have o3: "DeleteDataSource ''KB1'' ''DS1'' \<in> set cs"
    by (rule a3 [rule_format, OF p3]) simp
  from l3 have m3: "cs ! 3 \<in> set cs" by (rule nth_mem)
  from k3 m3 have "list_ex is_storage_op cs" unfolding list_ex_iff by (rule bexI)
  then have o4: "list_ex is_kb_deletion cs" by (rule a4 [rule_format])
  from c cs k1 k2 k3 o1 o2 o3 o4 show ?thesis by (intro exI [of _ cs] conjI)
qed

lemma cleanup_never_raises:
  "\<exists>r2 w2. cleanup ev k w1 = (Inr r2, w2) \<and>
     (r2 = (Json [(''message'', ''Resources cleaned up successfully'')], 200) \<or>
      (\<exists>pre c e. trace w2 = trace w1 @ pre @ [(c, Some e)] \<and> r2 = (Json [(''error'', str_of e)], 500)))"
proof -
  obtain r w' where d: "delete_kb ev k True w1 = (r, w')"
    by (cases "delete_kb ev k True w1")
  show ?thesis
  proof (cases r)
    case (Inr u)
    with d have "cleanup ev k w1 = (Inr (Json [(''message'', ''Resources cleaned up successfully'')], 200), w')"
      by (simp add: cleanup_def)
    then show ?thesis by (intro exI conjI disjI1) (assumption, rule refl)
  next
    case (Inl e)
    let ?w2 = "logger ERROR (''Error cleaning up: '' @ str_of e) w'"
    from d Inl have c: "cleanup ev k w1 = (Inr (Json [(''error'', str_of e)], 500), ?w2)"
      by (simp add: cleanup_def)
    from run_delete_kb [OF d] Inl obtain pre c0 where "trace w' = trace w1 @ pre @ [(c0, Some e)]"
      by (auto simp: run_def raised_def)
    then have t: "trace ?w2 = trace w1 @ pre @ [(c0, Some e)]" by (simp add: trace_logger)
    have e3: "\<exists>pre c e'. trace ?w2 = trace w1 @ pre @ [(c, Some e')] \<and>
            (Json [(''error'', str_of e)], 500::nat) = (Json [(''error'', str_of e')], 500)"
      by (rule exI [of _ pre], rule exI [of _ c0], rule exI [of _ e], rule conjI [OF t refl])
    show ?thesis
      by (rule exI [of _ "(Json [(''error'', str_of e)], 500)"], rule exI [of _ ?w2],
          rule conjI [OF c], rule disjI2, rule e3)
  qed
qed

text \<open>
  Claim C7. After a cleanup that answered with the success message, a second cleanup
  returns a response and raises nothing: either the success message again, or status 500
  with a JSON body whose \<^verbatim>\<open>error\<close> is the message of the exception raised by the last
  outbound call of this second cleanup.
\<close>

theorem cleanup_twice_never_raises:
  assumes "cleanup ev k w = (Inr (Json [(''message'', ''Resources cleaned up successfully'')], 200), w1)"
  shows "\<exists>r2 w2. cleanup ev k w1 = (Inr r2, w2) \<and>
     (r2 = (Json [(''message'', ''Resources cleaned up successfully'')], 200) \<or>
      (\<exists>pre c e. trace w2 = trace w1 @ pre @ [(c, Some e)] \<and> r2 = (Json [(''error'', str_of e)], 500)))"
  by (rule cleanup_never_raises)

lemma gone_first_cleanup:
  "fst (cleanup gone_env sample_kb empty_world)
     = Inr (Json [(''message'', ''Resources cleaned up successfully'')], 200)"
  by (simp add: cleanup_def delete_kb_def delete_kb_try_def empty_and_delete_bucket_def
      outbound_def logger_def raised_def Let_def gone_env_def ok_env_def sample_kb_def empty_world_def)

lemma gone_first_trace:
  "trace (snd (cleanup gone_env sample_kb empty_world)) =
     [(ListDataSources ''KB1'', None),
      (DeleteDataSource ''KB1'' ''DS1'', None),
      (DeleteKnowledgeBase ''KB1'', None),
      (ListObjectsV2 ''bedrock-kb-data-0000001-1'', None),
      (DeleteObjects ''bedrock-kb-data-0000001-1'' [''report.pdf''], None),
      (DeleteBucket ''bedrock-kb-data-0000001-1'', None)]"
  by (simp add: cleanup_def delete_kb_def delete_kb_try_def empty_and_delete_bucket_def
      outbound_def logger_def raised_def Let_def gone_env_def ok_env_def sample_kb_def empty_world_def)

lemma gone_second_cleanup:
  assumes "trace w1 =
     [(ListDataSources ''KB1'', None),
      (DeleteDataSource ''KB1'' ''DS1'', None),
      (DeleteKnowledgeBase ''KB1'', None),
      (ListObjectsV2 ''bedrock-kb-data-0000001-1'', None),
      (DeleteObjects ''bedrock-kb-data-0000001-1'' [''report.pdf''], None),
      (DeleteBucket ''bedrock-kb-data-0000001-1'', None)]"
  shows "fst (cleanup gone_env sample_kb w1)
     = Inr (Json [(''error'', ''ResourceNotFoundException: knowledge base KB1 not found'')], 500)"
  using assms
  by (simp add: cleanup_def delete_kb_def delete_kb_try_def
      outbound_def raised_def Let_def gone_env_def ok_env_def sample_kb_def)

theorem cleanup_twice_never_raises_witness:
  "cleanup gone_env sample_kb empty_world
     = (Inr (Json [(''message'', ''Resources cleaned up successfully'')], 200),
        snd (cleanup gone_env sample_kb empty_world)) \<and>
   (\<exists>r2 w2. cleanup gone_env sample_kb (snd (cleanup gone_env sample_kb empty_world)) = (Inr r2, w2) \<and>
     (r2 = (Json [(''message'', ''Resources cleaned up successfully'')], 200) \<or>
      (\<exists>pre c e. trace w2 = trace (snd (cleanup gone_env sample_kb empty_world)) @ pre @ [(c, Some e)]
         \<and> r2 = (Json [(''error'', str_of e)], 500)))) \<and>
   fst (cleanup gone_env sample_kb (snd (cleanup gone_env sample_kb empty_world)))
     = Inr (Json [(''error'', ''ResourceNotFoundException: knowledge base KB1 not found'')], 500)"
proof -
  have h: "cleanup gone_env sample_kb empty_world
     = (Inr (Json [(''message'', ''Resources cleaned up successfully'')], 200),
        snd (cleanup gone_env sample_kb empty_world))"
    by (rule prod_eqI) (simp_all add: gone_first_cleanup)
  have s: "fst (cleanup gone_env sample_kb (snd (cleanup gone_env sample_kb empty_world)))
     = Inr (Json [(''error'', ''ResourceNotFoundException: knowledge base KB1 not found'')], 500)"
    by (rule gone_second_cleanup [OF gone_first_trace])
  from h cleanup_twice_never_raises [OF h] s show ?thesis by (intro conjI)
qed

end
